theory Spec2Isabelle
  imports Complex_Main "HOL-Library.Monad_Syntax"
begin

section \<open>Data model\<close>

text \<open>
  The gesture pipeline of \<^verbatim>\<open>src/utils/gestureRecognition.ts\<close>. A JavaScript
  \<^verbatim>\<open>number\<close> is modelled as a \<^typ>\<open>real\<close>: arithmetic is exact, and there is
  no NaN and no infinity. A computation of the source that throws (a property read on
  \<^verbatim>\<open>undefined\<close>) has the value \<open>None\<close>.

  The three point-like interfaces share their \<open>x\<close> and \<open>y\<close> fields, as the
  structural typing of the source lets them.
\<close>

record Point2D =
  x :: real
  y :: real

record HandLandmark = Point2D +
  z :: real

record TrackPoint = Point2D +
  timestamp :: real

datatype GestureType = Draw | Erase | Menu | NoGesture | Line | Rectangle | Circle

record GestureResult =
  type :: GestureType
  position :: Point2D
  confidence :: real

section \<open>Static pose classifier\<close>

definition THUMB_TIP :: nat where "THUMB_TIP = 4"
definition INDEX_FINGER_TIP :: nat where "INDEX_FINGER_TIP = 8"
definition INDEX_FINGER_PIP :: nat where "INDEX_FINGER_PIP = 6"
definition MIDDLE_FINGER_TIP :: nat where "MIDDLE_FINGER_TIP = 12"
definition MIDDLE_FINGER_PIP :: nat where "MIDDLE_FINGER_PIP = 10"
definition RING_FINGER_TIP :: nat where "RING_FINGER_TIP = 16"
definition PINKY_TIP :: nat where "PINKY_TIP = 20"
definition WRIST :: nat where "WRIST = 0"

text \<open>
  \<^verbatim>\<open>landmarks[i]\<close> followed by a property read: out of range the array read gives
  \<^verbatim>\<open>undefined\<close> and the property read throws a TypeError.
\<close>

definition landmarkAt :: "HandLandmark list \<Rightarrow> nat \<Rightarrow> HandLandmark option" where
  "landmarkAt landmarks i = (if i < length landmarks then Some (landmarks ! i) else None)"

definition calculateDistance :: "HandLandmark \<Rightarrow> HandLandmark \<Rightarrow> real" where
  "calculateDistance point1 point2 =
     (let dx = x point1 - x point2;
          dy = y point1 - y point2
      in sqrt (dx * dx + dy * dy))"

definition isFingerExtended :: "HandLandmark list \<Rightarrow> nat \<Rightarrow> nat \<Rightarrow> bool option" where
  "isFingerExtended landmarks tipIndex pipIndex = do {
     tip \<leftarrow> landmarkAt landmarks tipIndex;
     pip \<leftarrow> landmarkAt landmarks pipIndex;
     wrist \<leftarrow> landmarkAt landmarks WRIST;
     let tipToWrist = calculateDistance tip wrist;
     let pipToWrist = calculateDistance pip wrist;
     Some (tipToWrist > pipToWrist)
   }"

definition isDrawingGesture :: "HandLandmark list \<Rightarrow> bool option" where
  "isDrawingGesture landmarks = do {
     indexExtended \<leftarrow> isFingerExtended landmarks INDEX_FINGER_TIP INDEX_FINGER_PIP;
     middleExtended \<leftarrow> isFingerExtended landmarks MIDDLE_FINGER_TIP MIDDLE_FINGER_PIP;
     ringExtended \<leftarrow> isFingerExtended landmarks RING_FINGER_TIP (RING_FINGER_TIP - 2);
     Some (indexExtended \<and> \<not> middleExtended \<and> \<not> ringExtended)
   }"

definition isErasingGesture :: "HandLandmark list \<Rightarrow> bool option" where
  "isErasingGesture landmarks = do {
     indexExtended \<leftarrow> isFingerExtended landmarks INDEX_FINGER_TIP INDEX_FINGER_PIP;
     middleExtended \<leftarrow> isFingerExtended landmarks MIDDLE_FINGER_TIP MIDDLE_FINGER_PIP;
     ringExtended \<leftarrow> isFingerExtended landmarks RING_FINGER_TIP (RING_FINGER_TIP - 2);
     pinkyExtended \<leftarrow> isFingerExtended landmarks PINKY_TIP (PINKY_TIP - 2);
     Some (\<not> indexExtended \<and> \<not> middleExtended \<and> \<not> ringExtended \<and> \<not> pinkyExtended)
   }"

definition isMenuGesture :: "HandLandmark list \<Rightarrow> bool option" where
  "isMenuGesture landmarks = do {
     indexExtended \<leftarrow> isFingerExtended landmarks INDEX_FINGER_TIP INDEX_FINGER_PIP;
     middleExtended \<leftarrow> isFingerExtended landmarks MIDDLE_FINGER_TIP MIDDLE_FINGER_PIP;
     ringExtended \<leftarrow> isFingerExtended landmarks RING_FINGER_TIP (RING_FINGER_TIP - 2);
     pinkyExtended \<leftarrow> isFingerExtended landmarks PINKY_TIP (PINKY_TIP - 2);
     Some (indexExtended \<and> middleExtended \<and> ringExtended \<and> pinkyExtended)
   }"

definition isLineGesture :: "HandLandmark list \<Rightarrow> bool option" where
  "isLineGesture landmarks = do {
     indexExtended \<leftarrow> isFingerExtended landmarks INDEX_FINGER_TIP INDEX_FINGER_PIP;
     middleExtended \<leftarrow> isFingerExtended landmarks MIDDLE_FINGER_TIP MIDDLE_FINGER_PIP;
     ringExtended \<leftarrow> isFingerExtended landmarks RING_FINGER_TIP (RING_FINGER_TIP - 2);
     pinkyExtended \<leftarrow> isFingerExtended landmarks PINKY_TIP (PINKY_TIP - 2);
     Some (indexExtended \<and> middleExtended \<and> \<not> ringExtended \<and> \<not> pinkyExtended)
   }"

definition isCircleGesture :: "HandLandmark list \<Rightarrow> bool option" where
  "isCircleGesture landmarks = do {
     thumbTip \<leftarrow> landmarkAt landmarks THUMB_TIP;
     indexTip \<leftarrow> landmarkAt landmarks INDEX_FINGER_TIP;
     middleExtended \<leftarrow> isFingerExtended landmarks MIDDLE_FINGER_TIP MIDDLE_FINGER_PIP;
     let thumbIndexDistance = calculateDistance thumbTip indexTip;
     Some (thumbIndexDistance < 0.05 \<and> middleExtended)
   }"

definition isRectangleGesture :: "HandLandmark list \<Rightarrow> bool option" where
  "isRectangleGesture landmarks = do {
     thumbTip \<leftarrow> landmarkAt landmarks THUMB_TIP;
     thumbIp \<leftarrow> landmarkAt landmarks (THUMB_TIP - 1);
     let thumbExtended = (y thumbTip < y thumbIp);
     indexExtended \<leftarrow> isFingerExtended landmarks INDEX_FINGER_TIP INDEX_FINGER_PIP;
     middleExtended \<leftarrow> isFingerExtended landmarks MIDDLE_FINGER_TIP MIDDLE_FINGER_PIP;
     ringExtended \<leftarrow> isFingerExtended landmarks RING_FINGER_TIP (RING_FINGER_TIP - 2);
     Some (thumbExtended \<and> \<not> indexExtended \<and> \<not> middleExtended \<and> \<not> ringExtended)
   }"

text \<open>
  The argument of \<open>recognizeGesture\<close> is \<open>None\<close> for a \<^verbatim>\<open>null\<close> or
  \<^verbatim>\<open>undefined\<close> array (the \<^verbatim>\<open>!landmarks\<close> test of the guard); its value is
  \<open>None\<close> when the source would throw.
\<close>

definition noGestureAtOrigin :: GestureResult where
  "noGestureAtOrigin = \<lparr>type = NoGesture, position = \<lparr>x = 0, y = 0\<rparr>, confidence = 0\<rparr>"

definition recognizeGesture :: "HandLandmark list option \<Rightarrow> GestureResult option" where
  "recognizeGesture input =
     (case input of
        None \<Rightarrow> Some noGestureAtOrigin
      | Some landmarks \<Rightarrow>
          if length landmarks < 21 then Some noGestureAtOrigin
          else do {
            indexTip \<leftarrow> landmarkAt landmarks INDEX_FINGER_TIP;
            let position = \<lparr>x = 1 - x indexTip, y = y indexTip\<rparr>;
            lineGesture \<leftarrow> isLineGesture landmarks;
            if lineGesture then Some \<lparr>type = Line, position = position, confidence = 0.85\<rparr>
            else do {
              circleGesture \<leftarrow> isCircleGesture landmarks;
              if circleGesture then Some \<lparr>type = Circle, position = position, confidence = 0.8\<rparr>
              else do {
                rectangleGesture \<leftarrow> isRectangleGesture landmarks;
                if rectangleGesture
                then Some \<lparr>type = Rectangle, position = position, confidence = 0.8\<rparr>
                else do {
                  drawingGesture \<leftarrow> isDrawingGesture landmarks;
                  if drawingGesture
                  then Some \<lparr>type = Draw, position = position, confidence = 0.8\<rparr>
                  else do {
                    erasingGesture \<leftarrow> isErasingGesture landmarks;
                    if erasingGesture
                    then Some \<lparr>type = Erase, position = position, confidence = 0.7\<rparr>
                    else do {
                      menuGesture \<leftarrow> isMenuGesture landmarks;
                      if menuGesture
                      then Some \<lparr>type = Menu, position = position, confidence = 0.9\<rparr>
                      else Some \<lparr>type = NoGesture, position = position, confidence = 0\<rparr>
                    }
                  }
                }
              }
            }
          })"

section \<open>Trajectory accumulator and shape fitter\<close>

datatype Shape = ShapeLine | ShapeCircle | ShapeRectangle | ShapeNone

text \<open>The payload of a fit: \<open>{start, end}\<close>, \<open>{center, radius}\<close> or \<open>{topLeft, bottomRight}\<close>.\<close>

datatype ShapePoints =
    LinePoints TrackPoint TrackPoint
  | CirclePoints TrackPoint real
  | RectanglePoints TrackPoint TrackPoint

record ShapeResult =
  shape :: Shape
  confidence :: real
  points :: "ShapePoints option"

record ShapeRecognizer =
  trackPoints :: "TrackPoint list"

definition maxTrackPoints :: nat where "maxTrackPoints = 50"
definition minPointsForRecognition :: nat where "minPointsForRecognition = 10"

definition newShapeRecognizer :: ShapeRecognizer where
  "newShapeRecognizer = \<lparr>trackPoints = []\<rparr>"

text \<open>
  \<open>Date.now()\<close> is an input: every method that reads the clock takes the reading as
  its first argument(s). \<open>push\<close> appends, \<open>shift\<close> drops the first element.
\<close>

definition addPoint :: "real \<Rightarrow> Point2D \<Rightarrow> ShapeRecognizer \<Rightarrow> ShapeRecognizer" where
  "addPoint now point s =
     (let pushed = trackPoints s @ [\<lparr>x = x point, y = y point, timestamp = now\<rparr>]
      in if length pushed > maxTrackPoints
         then s\<lparr>trackPoints := tl pushed\<rparr>
         else s\<lparr>trackPoints := pushed\<rparr>)"

definition clearTrack :: "ShapeRecognizer \<Rightarrow> ShapeRecognizer" where
  "clearTrack s = s\<lparr>trackPoints := []\<rparr>"

definition getTrackPoints :: "ShapeRecognizer \<Rightarrow> TrackPoint list \<times> ShapeRecognizer" where
  "getTrackPoints s = (trackPoints s, s)"

definition trackPointAt :: "TrackPoint list \<Rightarrow> nat \<Rightarrow> TrackPoint option" where
  "trackPointAt pts i = (if i < length pts then Some (pts ! i) else None)"

definition pointToLineDistance :: "TrackPoint \<Rightarrow> TrackPoint \<Rightarrow> TrackPoint \<Rightarrow> real" where
  "pointToLineDistance point lineStart lineEnd =
     (let A = x point - x lineStart;
          B = y point - y lineStart;
          C = x lineEnd - x lineStart;
          D = y lineEnd - y lineStart;
          dot = A * C + B * D;
          lenSq = C * C + D * D
      in if lenSq = 0 then sqrt (A * A + B * B)
         else
           let param = dot / lenSq;
               xx = (if param < 0 then x lineStart
                     else if param > 1 then x lineEnd
                     else x lineStart + param * C);
               yy = (if param < 0 then y lineStart
                     else if param > 1 then y lineEnd
                     else y lineStart + param * D);
               dx = x point - xx;
               dy = y point - yy
           in sqrt (dx * dx + dy * dy))"

text \<open>
  The detectors are private methods; each returns its result together with the
  recognizer it was called on. Their value is \<open>None\<close> where the source throws or leaves
  the real numbers: \<open>detectLine\<close> on an empty buffer reads \<open>start.x\<close> of
  \<^verbatim>\<open>undefined\<close> (the index \<open>length - 1\<close> is \<open>-1\<close> there), and on two points more
  than 0.1 apart its confidence is \<open>0 / 0\<close>, a NaN; \<open>detectCircle\<close> and
  \<open>detectRectangle\<close> on an empty buffer return NaN and infinite coordinates.
\<close>

definition detectLine :: "ShapeRecognizer \<Rightarrow> (ShapeResult \<times> ShapeRecognizer) option" where
  "detectLine s = do {
     let pts = trackPoints s;
     start \<leftarrow> trackPointAt pts 0;
     end' \<leftarrow> trackPointAt pts (length pts - 1);
     let lineLength = sqrt ((x end' - x start) ^ 2 + (y end' - y start) ^ 2);
     let totalDeviation =
           fold (\<lambda>i total. total + pointToLineDistance (pts ! i) start end')
                [1 ..< length pts - 1] 0;
     let avgDeviation = totalDeviation / (real (length pts) - 2);
     let confidence = max 0 (1 - avgDeviation * 10);
     if length pts = 2 \<and> lineLength > 0.1 then None
     else Some (\<lparr>shape = ShapeLine,
                  confidence = (if lineLength > 0.1 then confidence else 0),
                  points = Some (LinePoints start end')\<rparr>, s)
   }"

definition detectCircle :: "real \<Rightarrow> ShapeRecognizer \<Rightarrow> (ShapeResult \<times> ShapeRecognizer) option" where
  "detectCircle now s =
     (let pts = trackPoints s in
      if pts = [] then None
      else
        let centerX = fold (\<lambda>point acc. acc + x point) pts 0 / real (length pts);
            centerY = fold (\<lambda>point acc. acc + y point) pts 0 / real (length pts);
            center = \<lparr>x = centerX, y = centerY, timestamp = now\<rparr>;
            totalRadius =
              fold (\<lambda>point acc.
                      acc + sqrt ((x point - centerX) ^ 2 + (y point - centerY) ^ 2)) pts 0;
            avgRadius = totalRadius / real (length pts);
            radiusDeviation =
              fold (\<lambda>point acc.
                      acc + \<bar>sqrt ((x point - centerX) ^ 2 + (y point - centerY) ^ 2) - avgRadius\<bar>)
                   pts 0;
            avgDeviation = radiusDeviation / real (length pts);
            confidence = max 0 (1 - avgDeviation * 15)
        in Some (\<lparr>shape = ShapeCircle,
                   confidence = (if avgRadius > 0.05 then confidence else 0),
                   points = Some (CirclePoints center avgRadius)\<rparr>, s))"

text \<open>
  The bounding box starts from \<open>\<plusminus>Infinity\<close>; on a non-empty buffer the first
  \<open>Math.min(Infinity, point.x)\<close> is \<open>point.x\<close>, so the folds start from the first point.
\<close>

definition detectRectangle ::
  "real \<Rightarrow> real \<Rightarrow> ShapeRecognizer \<Rightarrow> (ShapeResult \<times> ShapeRecognizer) option" where
  "detectRectangle now1 now2 s =
     (case trackPoints s of
        [] \<Rightarrow> None
      | first # rest \<Rightarrow>
          let pts = first # rest;
              minX = fold (\<lambda>point m. min m (x point)) rest (x first);
              minY = fold (\<lambda>point m. min m (y point)) rest (y first);
              maxX = fold (\<lambda>point m. max m (x point)) rest (x first);
              maxY = fold (\<lambda>point m. max m (y point)) rest (y first);
              width = maxX - minX;
              height = maxY - minY;
              tolerance = 0.05;
              edgePoints =
                fold (\<lambda>point n.
                        let nearLeftEdge = \<bar>x point - minX\<bar> < tolerance;
                            nearRightEdge = \<bar>x point - maxX\<bar> < tolerance;
                            nearTopEdge = \<bar>y point - minY\<bar> < tolerance;
                            nearBottomEdge = \<bar>y point - maxY\<bar> < tolerance
                        in if nearLeftEdge \<or> nearRightEdge \<or> nearTopEdge \<or> nearBottomEdge
                           then n + 1 else n)
                     pts (0::nat);
              edgeRatio = real edgePoints / real (length pts);
              aspectRatio = min width height / max width height;
              confidence = edgeRatio * aspectRatio
          in Some (\<lparr>shape = ShapeRectangle,
                     confidence = (if width > 0.1 \<and> height > 0.1 then confidence else 0),
                     points = Some (RectanglePoints
                                \<lparr>x = minX, y = minY, timestamp = now1\<rparr>
                                \<lparr>x = maxX, y = maxY, timestamp = now2\<rparr>)\<rparr>, s))"

definition noShape :: ShapeResult where
  "noShape = \<lparr>shape = ShapeNone, confidence = 0, points = None\<rparr>"

text \<open>
  \<open>recognizeShape\<close> takes the three clock readings its detectors may make: one for the
  circle's centre, two for the rectangle's corners.
\<close>

definition recognizeShape ::
  "real \<Rightarrow> real \<Rightarrow> real \<Rightarrow> ShapeRecognizer \<Rightarrow> (ShapeResult \<times> ShapeRecognizer) option" where
  "recognizeShape nowCircle nowRect1 nowRect2 s =
     (if length (trackPoints s) < minPointsForRecognition then Some (noShape, s)
      else do {
        (lineResult, s1) \<leftarrow> detectLine s;
        if confidence lineResult > 0.7 then Some (lineResult, s1)
        else do {
          (circleResult, s2) \<leftarrow> detectCircle nowCircle s1;
          if confidence circleResult > 0.6 then Some (circleResult, s2)
          else do {
            (rectangleResult, s3) \<leftarrow> detectRectangle nowRect1 nowRect2 s2;
            if confidence rectangleResult > 0.6 then Some (rectangleResult, s3)
            else Some (noShape, s3)
          }
        }
      })"

section \<open>Temporal stabilizer\<close>

record GestureStabilizer =
  gestureHistory :: "GestureResult list"

definition historySize :: nat where "historySize = 5"
definition confidenceThreshold :: real where "confidenceThreshold = 0.6"

definition newGestureStabilizer :: GestureStabilizer where
  "newGestureStabilizer = \<lparr>gestureHistory = []\<rparr>"

text \<open>
  The tally object \<open>gestureCount\<close> is an association list in key-insertion order, the
  order in which \<open>Object.entries\<close> lists string keys:
  \<open>gestureCount[k] = (gestureCount[k] || 0) + 1\<close> bumps an existing key in place and
  appends a new one.
\<close>

fun countGesture :: "GestureType \<Rightarrow> (GestureType \<times> nat) list \<Rightarrow> (GestureType \<times> nat) list" where
  "countGesture k [] = [(k, 0 + 1)]"
| "countGesture k ((k', n) # rest) =
     (if k' = k then (k', n + 1) # rest else (k', n) # countGesture k rest)"

definition gestureCount :: "GestureResult list \<Rightarrow> (GestureType \<times> nat) list" where
  "gestureCount history = fold (\<lambda>g counts. countGesture (type g) counts) history []"

text \<open>
  \<open>Object.entries(gestureCount).sort(([,a], [,b]) => b - a)\<close>: a stable sort in
  descending order of the counts (\<open>sort_key\<close> is a stable insertion sort). The
  threshold \<open>Math.ceil(5 * 0.6)\<close> is 3: the product is 3 in double arithmetic as it is
  in the reals.
\<close>

definition sortedCounts :: "GestureResult list \<Rightarrow> (GestureType \<times> nat) list" where
  "sortedCounts history = sort_key (\<lambda>(k, c). - int c) (gestureCount history)"

definition addGesture ::
  "GestureResult \<Rightarrow> GestureStabilizer \<Rightarrow> GestureResult \<times> GestureStabilizer" where
  "addGesture gesture s =
     (let pushed = gestureHistory s @ [gesture];
          history = (if length pushed > historySize then tl pushed else pushed);
          s' = s\<lparr>gestureHistory := history\<rparr>
      in case sortedCounts history of
           mostFrequent # _ \<Rightarrow>
             if real (snd mostFrequent) \<ge> of_int \<lceil>real historySize * confidenceThreshold\<rceil>
             then
               let recentGesture = last history
               in (\<lparr>type = fst mostFrequent,
                    position = position recentGesture,
                    GestureResult.confidence = real (snd mostFrequent) / real historySize\<rparr>, s')
             else (\<lparr>type = NoGesture, position = position gesture,
                    GestureResult.confidence = 0\<rparr>, s')
         | [] \<Rightarrow> (\<lparr>type = NoGesture, position = position gesture,
                   GestureResult.confidence = 0\<rparr>, s'))"

definition reset :: "GestureStabilizer \<Rightarrow> GestureStabilizer" where
  "reset s = s\<lparr>gestureHistory := []\<rparr>"

section \<open>Reference definitions and concrete inputs\<close>

text \<open>
  The priority order of the pose predicates as the design states it: a list of
  (predicate, kind, confidence), scanned from the front; the first predicate that holds
  decides, and \<open>none\<close> with confidence 0 is the default.
\<close>

definition posePriority :: "((HandLandmark list \<Rightarrow> bool option) \<times> GestureType \<times> real) list" where
  "posePriority =
     [(isLineGesture, Line, 0.85), (isCircleGesture, Circle, 0.8),
      (isRectangleGesture, Rectangle, 0.8), (isDrawingGesture, Draw, 0.8),
      (isErasingGesture, Erase, 0.7), (isMenuGesture, Menu, 0.9)]"

fun firstMatch ::
  "((HandLandmark list \<Rightarrow> bool option) \<times> GestureType \<times> real) list \<Rightarrow> HandLandmark list
     \<Rightarrow> GestureType \<times> real" where
  "firstMatch [] landmarks = (NoGesture, 0)"
| "firstMatch ((pose, kind, c) # rest) landmarks =
     (if pose landmarks = Some True then (kind, c) else firstMatch rest landmarks)"

definition landmark :: "real \<Rightarrow> real \<Rightarrow> HandLandmark" where
  "landmark a b = \<lparr>x = a, y = b, z = 0\<rparr>"

text \<open>
  A hand with index and middle finger stretched, ring and pinky curled, and the thumb tip
  touching the index tip: it satisfies the line predicate and the circle predicate.
\<close>

definition lineHand :: "HandLandmark list" where
  "lineHand =
     [landmark 0.5 0.9, landmark 0.4 0.8, landmark 0.4 0.7, landmark 0.4 0.6, landmark 0.5 0.4,
      landmark 0.5 0.7, landmark 0.5 0.6, landmark 0.5 0.5, landmark 0.5 0.4,
      landmark 0.55 0.7, landmark 0.55 0.6, landmark 0.55 0.5, landmark 0.55 0.4,
      landmark 0.6 0.7, landmark 0.6 0.6, landmark 0.6 0.65, landmark 0.6 0.7,
      landmark 0.65 0.7, landmark 0.65 0.65, landmark 0.65 0.7, landmark 0.65 0.75]"

text \<open>A hand with index and ring finger stretched and the middle finger curled: no pose.\<close>

definition noneHand :: "HandLandmark list" where
  "noneHand =
     [landmark 0.5 0.9, landmark 0.4 0.8, landmark 0.4 0.7, landmark 0.4 0.6, landmark 0.4 0.5,
      landmark 0.5 0.7, landmark 0.5 0.6, landmark 0.5 0.5, landmark 0.5 0.4,
      landmark 0.55 0.7, landmark 0.55 0.6, landmark 0.55 0.65, landmark 0.55 0.7,
      landmark 0.6 0.7, landmark 0.6 0.6, landmark 0.6 0.5, landmark 0.6 0.4,
      landmark 0.65 0.7, landmark 0.65 0.65, landmark 0.65 0.7, landmark 0.65 0.75]"

text \<open>
  The kinds of a window in the order of their first occurrence, and the index of the first
  occurrence of a kind.
\<close>

definition firstOccurrences :: "'a list \<Rightarrow> 'a list" where
  "firstOccurrences ks = rev (remdups (rev ks))"

fun firstIndex :: "'a \<Rightarrow> 'a list \<Rightarrow> nat" where
  "firstIndex k [] = 0"
| "firstIndex k (a # as) = (if a = k then 0 else Suc (firstIndex k as))"

text \<open>The stabilizer after a sequence of calls of \<open>addGesture\<close>, the results dropped.\<close>

definition observeAll :: "GestureResult list \<Rightarrow> GestureStabilizer \<Rightarrow> GestureStabilizer" where
  "observeAll gestures s = fold (\<lambda>g st. snd (addGesture g st)) gestures s"

text \<open>Raw results and stabilizer states for the instances below.\<close>

definition rawGesture :: "GestureType \<Rightarrow> real \<Rightarrow> GestureResult" where
  "rawGesture k a = \<lparr>type = k, position = \<lparr>x = a, y = a\<rparr>, GestureResult.confidence = 0.8\<rparr>"

definition sameFour :: "GestureResult list" where
  "sameFour = replicate 4 (rawGesture Draw 0.3)"

definition distinctFour :: "GestureResult list" where
  "distinctFour = [rawGesture Draw 0.1, rawGesture Erase 0.2, rawGesture Menu 0.3, rawGesture Line 0.4]"

definition mixedSix :: "GestureResult list" where
  "mixedSix = [rawGesture Draw 0.1, rawGesture Draw 0.2, rawGesture Erase 0.3,
               rawGesture Line 0.4, rawGesture Line 0.5, rawGesture Line 0.6]"

definition tiedFour :: GestureStabilizer where
  "tiedFour = \<lparr>gestureHistory = [rawGesture Line 0.1, rawGesture Draw 0.2, rawGesture Draw 0.3]\<rparr>"

text \<open>
  A history of six entries: no sequence of calls leaves one behind, the methods are defined
  on it all the same.
\<close>

definition tiedSix :: GestureStabilizer where
  "tiedSix = \<lparr>gestureHistory = [rawGesture Menu 0, rawGesture Draw 0.1, rawGesture Line 0.2,
      rawGesture Draw 0.3, rawGesture Line 0.4, rawGesture Line 0.5]\<rparr>"

text \<open>
  The track point \<open>addPoint\<close> stores for a clock reading and a point, and the recognizer
  after a sequence of \<open>addPoint\<close> calls.
\<close>

definition toTrackPoint :: "real \<times> Point2D \<Rightarrow> TrackPoint" where
  "toTrackPoint input = \<lparr>x = x (snd input), y = y (snd input), timestamp = fst input\<rparr>"

definition addPoints :: "(real \<times> Point2D) list \<Rightarrow> ShapeRecognizer \<Rightarrow> ShapeRecognizer" where
  "addPoints inputs s = fold (\<lambda>input st. addPoint (fst input) (snd input) st) inputs s"

definition sample :: "nat \<Rightarrow> real \<times> Point2D" where
  "sample i = (real i, \<lparr>x = real i / 100, y = 0.1\<rparr>)"

text \<open>
  A point lies on the segment from \<open>lineStart\<close> to \<open>lineEnd\<close>: it is collinear with
  the two ends and its projection falls between them. For distinct ends this says
  \<open>point = lineStart + t * (lineEnd - lineStart)\<close> for some \<open>t\<close> in [0, 1].
\<close>

definition onSegment :: "TrackPoint \<Rightarrow> TrackPoint \<Rightarrow> TrackPoint \<Rightarrow> bool" where
  "onSegment point lineStart lineEnd =
     (let A = x point - x lineStart;
          B = y point - y lineStart;
          C = x lineEnd - x lineStart;
          D = y lineEnd - y lineStart
      in A * D - B * C = 0 \<and> 0 \<le> A * C + B * D \<and> A * C + B * D \<le> C * C + D * D)"

text \<open>
  Trajectories for the instances below: eleven samples of the segment from (0.1, 0.1) to
  (0.8, 0.1), its first nine samples, ten copies of one point, and three rounds of the
  corners of the unit square.
\<close>

definition trackPoint :: "real \<Rightarrow> real \<Rightarrow> real \<Rightarrow> TrackPoint" where
  "trackPoint a b t = \<lparr>x = a, y = b, timestamp = t\<rparr>"

definition lineTrack :: ShapeRecognizer where
  "lineTrack = \<lparr>trackPoints =
     [trackPoint 0.1 0.1 0, trackPoint 0.17 0.1 1, trackPoint 0.24 0.1 2, trackPoint 0.31 0.1 3,
      trackPoint 0.38 0.1 4, trackPoint 0.45 0.1 5, trackPoint 0.52 0.1 6, trackPoint 0.59 0.1 7,
      trackPoint 0.66 0.1 8, trackPoint 0.73 0.1 9, trackPoint 0.8 0.1 10]\<rparr>"

definition shortTrack :: ShapeRecognizer where
  "shortTrack = \<lparr>trackPoints = take 9 (trackPoints lineTrack)\<rparr>"

definition stillTrack :: ShapeRecognizer where
  "stillTrack = \<lparr>trackPoints = replicate 10 (trackPoint 0.5 0.5 0)\<rparr>"

definition squareTrack :: ShapeRecognizer where
  "squareTrack = \<lparr>trackPoints =
     [trackPoint 0 0 0, trackPoint 1 0 1, trackPoint 1 1 2, trackPoint 0 1 3,
      trackPoint 0 0 4, trackPoint 1 0 5, trackPoint 1 1 6, trackPoint 0 1 7,
      trackPoint 0 0 8, trackPoint 1 0 9, trackPoint 1 1 10, trackPoint 0 1 11]\<rparr>"




section \<open>Properties of the static pose classifier\<close>

lemmas landmark_indices =
  THUMB_TIP_def INDEX_FINGER_TIP_def INDEX_FINGER_PIP_def MIDDLE_FINGER_TIP_def
  MIDDLE_FINGER_PIP_def RING_FINGER_TIP_def PINKY_TIP_def WRIST_def

lemmas pose_defs =
  isLineGesture_def isCircleGesture_def isRectangleGesture_def isDrawingGesture_def
  isErasingGesture_def isMenuGesture_def isFingerExtended_def landmarkAt_def
  calculateDistance_def landmark_indices

lemma sqrt_less_numeral: "0 < c \<Longrightarrow> (sqrt a < c) = (a < c * c)"
  by (metis abs_of_pos real_sqrt_abs2 real_sqrt_less_iff)

lemma landmarkAt_in_range: "i < length landmarks \<Longrightarrow> landmarkAt landmarks i = Some (landmarks ! i)"
  by (simp add: landmarkAt_def)

lemma isFingerExtended_total:
  assumes "21 \<le> length landmarks" "tipIndex \<le> 20" "pipIndex \<le> 20"
  shows "isFingerExtended landmarks tipIndex pipIndex =
           Some (calculateDistance (landmarks ! tipIndex) (landmarks ! 0)
                   > calculateDistance (landmarks ! pipIndex) (landmarks ! 0))"
  using assms by (auto simp: isFingerExtended_def landmarkAt_def WRIST_def)

lemma isLineGesture_total: "21 \<le> length landmarks \<Longrightarrow> \<exists>b. isLineGesture landmarks = Some b"
  by (simp add: isLineGesture_def isFingerExtended_total landmark_indices)

lemma isCircleGesture_total: "21 \<le> length landmarks \<Longrightarrow> \<exists>b. isCircleGesture landmarks = Some b"
  by (simp add: isCircleGesture_def isFingerExtended_total landmarkAt_in_range landmark_indices)

lemma isRectangleGesture_total:
  "21 \<le> length landmarks \<Longrightarrow> \<exists>b. isRectangleGesture landmarks = Some b"
  by (simp add: isRectangleGesture_def isFingerExtended_total landmarkAt_in_range landmark_indices)

lemma isDrawingGesture_total: "21 \<le> length landmarks \<Longrightarrow> \<exists>b. isDrawingGesture landmarks = Some b"
  by (simp add: isDrawingGesture_def isFingerExtended_total landmark_indices)

lemma isErasingGesture_total: "21 \<le> length landmarks \<Longrightarrow> \<exists>b. isErasingGesture landmarks = Some b"
  by (simp add: isErasingGesture_def isFingerExtended_total landmark_indices)

lemma isMenuGesture_total: "21 \<le> length landmarks \<Longrightarrow> \<exists>b. isMenuGesture landmarks = Some b"
  by (simp add: isMenuGesture_def isFingerExtended_total landmark_indices)

text \<open>
  With 21 landmarks or more every read is in range: the classifier returns, its position
  is the mirrored index tip, and its kind is the first pose of the priority list.
\<close>

lemma recognizeGesture_classifies:
  assumes len: "21 \<le> length landmarks"
  shows "\<exists>r. recognizeGesture (Some landmarks) = Some r
           \<and> position r = \<lparr>x = 1 - x (landmarks ! 8), y = y (landmarks ! 8)\<rparr>
           \<and> (type r, GestureResult.confidence r) = firstMatch posePriority landmarks"
proof -
  obtain b1 b2 b3 b4 b5 b6 where
    "isLineGesture landmarks = Some b1" "isCircleGesture landmarks = Some b2"
    "isRectangleGesture landmarks = Some b3" "isDrawingGesture landmarks = Some b4"
    "isErasingGesture landmarks = Some b5" "isMenuGesture landmarks = Some b6"
    using isLineGesture_total[OF len] isCircleGesture_total[OF len]
      isRectangleGesture_total[OF len] isDrawingGesture_total[OF len]
      isErasingGesture_total[OF len] isMenuGesture_total[OF len] by blast
  moreover have "landmarkAt landmarks INDEX_FINGER_TIP = Some (landmarks ! 8)"
    using len by (simp add: landmarkAt_def INDEX_FINGER_TIP_def)
  ultimately show ?thesis
    using len by (simp add: recognizeGesture_def posePriority_def)
qed

lemma recognizeGesture_returns: "\<exists>r. recognizeGesture input = Some r"
proof (cases input)
  case None
  then show ?thesis by (simp add: recognizeGesture_def)
next
  case (Some landmarks)
  show ?thesis
  proof (cases "length landmarks < 21")
    case True
    with Some show ?thesis by (simp add: recognizeGesture_def)
  next
    case False
    then have "21 \<le> length landmarks" by simp
    from recognizeGesture_classifies[OF this] Some show ?thesis by blast
  qed
qed

lemma landmarkAt_take:
  "21 \<le> length landmarks \<Longrightarrow> i \<le> 20 \<Longrightarrow>
     landmarkAt (take 21 landmarks) i = landmarkAt landmarks i"
  by (simp add: landmarkAt_def)

lemma isFingerExtended_take:
  "21 \<le> length landmarks \<Longrightarrow> tipIndex \<le> 20 \<Longrightarrow> pipIndex \<le> 20 \<Longrightarrow>
     isFingerExtended (take 21 landmarks) tipIndex pipIndex
       = isFingerExtended landmarks tipIndex pipIndex"
  by (simp add: isFingerExtended_def landmarkAt_take WRIST_def)

lemma poses_take:
  assumes "21 \<le> length landmarks"
  shows "isLineGesture (take 21 landmarks) = isLineGesture landmarks"
    and "isCircleGesture (take 21 landmarks) = isCircleGesture landmarks"
    and "isRectangleGesture (take 21 landmarks) = isRectangleGesture landmarks"
    and "isDrawingGesture (take 21 landmarks) = isDrawingGesture landmarks"
    and "isErasingGesture (take 21 landmarks) = isErasingGesture landmarks"
    and "isMenuGesture (take 21 landmarks) = isMenuGesture landmarks"
  using assms
  by (simp_all add: isLineGesture_def isCircleGesture_def isRectangleGesture_def
        isDrawingGesture_def isErasingGesture_def isMenuGesture_def
        isFingerExtended_take landmarkAt_take THUMB_TIP_def INDEX_FINGER_TIP_def
        INDEX_FINGER_PIP_def MIDDLE_FINGER_TIP_def MIDDLE_FINGER_PIP_def RING_FINGER_TIP_def
        PINKY_TIP_def)

lemma recognizeGesture_take:
  assumes "21 \<le> length landmarks"
  shows "recognizeGesture (Some (take 21 landmarks)) = recognizeGesture (Some landmarks)"
  using assms
  by (simp add: recognizeGesture_def poses_take landmarkAt_take INDEX_FINGER_TIP_def
        cong: if_cong)

text \<open>
  The line predicate needs the middle finger stretched and the drawing predicate needs it
  curled, so no hand satisfies both.
\<close>

lemma line_draw_exclusive:
  "\<not> (isLineGesture landmarks = Some True \<and> isDrawingGesture landmarks = Some True)"
  by (auto simp: isLineGesture_def isDrawingGesture_def split: bind_splits)

lemma lineHand_poses:
  "isLineGesture lineHand = Some True" "isCircleGesture lineHand = Some True"
  by (simp_all add: pose_defs lineHand_def landmark_def)

text \<open>
  C1, as stated: an array whose length is not 21, longer ones included, yields
  \<open>{none, (0,0), 0}\<close>. The guard of the source is \<open>length < 21\<close>: the 22 landmarks of
  \<open>lineHand\<close> followed by one more are classified as a line at the mirrored index tip.
\<close>

theorem recognizeGesture_longer_array_counterexample:
  "length (lineHand @ [landmark 0 0]) \<noteq> 21
   \<and> recognizeGesture (Some (lineHand @ [landmark 0 0]))
       = Some \<lparr>type = Line, position = \<lparr>x = 0.5, y = 0.4\<rparr>, confidence = 0.85\<rparr>
   \<and> recognizeGesture (Some (lineHand @ [landmark 0 0]))
       \<noteq> Some \<lparr>type = NoGesture, position = \<lparr>x = 0, y = 0\<rparr>, confidence = 0\<rparr>"
  by (simp add: recognizeGesture_def pose_defs lineHand_def landmark_def)

text \<open>
  C1, amended: an array with fewer than 21 landmarks, and an absent array, yield exactly
  \<open>{none, (0,0), 0}\<close>; the classifier throws on no input; an array with more than 21
  landmarks is classified as its first 21 landmarks are.
\<close>

theorem recognizeGesture_fails_closed_below_21:
  "(length landmarks < 21 \<longrightarrow>
      recognizeGesture (Some landmarks)
        = Some \<lparr>type = NoGesture, position = \<lparr>x = 0, y = 0\<rparr>, confidence = 0\<rparr>)
   \<and> recognizeGesture None
        = Some \<lparr>type = NoGesture, position = \<lparr>x = 0, y = 0\<rparr>, confidence = 0\<rparr>
   \<and> (\<exists>r. recognizeGesture input = Some r)
   \<and> (21 \<le> length landmarks \<longrightarrow>
        recognizeGesture (Some landmarks) = recognizeGesture (Some (take 21 landmarks)))"
  using recognizeGesture_returns[of input] recognizeGesture_take[of landmarks]
  by (simp add: recognizeGesture_def noGestureAtOrigin_def)

theorem recognizeGesture_fails_closed_below_21_witness:
  "length (take 20 lineHand) < 21
   \<and> recognizeGesture (Some (take 20 lineHand))
       = Some \<lparr>type = NoGesture, position = \<lparr>x = 0, y = 0\<rparr>, confidence = 0\<rparr>
   \<and> 21 \<le> length (lineHand @ [landmark 0 0])
   \<and> recognizeGesture (Some (lineHand @ [landmark 0 0]))
       = recognizeGesture (Some (take 21 (lineHand @ [landmark 0 0])))"
  using recognizeGesture_fails_closed_below_21[of "take 20 lineHand"]
    recognizeGesture_fails_closed_below_21[of "lineHand @ [landmark 0 0]"]
  by (simp add: lineHand_def)

text \<open>
  C5: the pose predicates are tried in the order line, circle, rectangle, draw, erase,
  menu and the first that holds decides; a 21-landmark hand that satisfies the line
  predicate is a line with confidence 0.85 whatever the later predicates say, so never a
  draw.
\<close>

theorem recognizeGesture_priority_order:
  assumes "length landmarks = 21"
  shows "\<exists>r. recognizeGesture (Some landmarks) = Some r
           \<and> (type r, GestureResult.confidence r) = firstMatch posePriority landmarks
           \<and> (isLineGesture landmarks = Some True \<longrightarrow>
                type r = Line \<and> GestureResult.confidence r = 0.85 \<and> type r \<noteq> Draw)"
proof -
  from assms have "21 \<le> length landmarks" by simp
  from recognizeGesture_classifies[OF this] obtain r where
    r: "recognizeGesture (Some landmarks) = Some r"
       "(type r, GestureResult.confidence r) = firstMatch posePriority landmarks"
    by blast
  have "isLineGesture landmarks = Some True \<longrightarrow>
          type r = Line \<and> GestureResult.confidence r = 0.85 \<and> type r \<noteq> Draw"
    using r(2) by (auto simp: posePriority_def)
  with r show ?thesis by blast
qed

theorem recognizeGesture_priority_order_witness:
  "length lineHand = 21 \<and> isLineGesture lineHand = Some True
   \<and> isCircleGesture lineHand = Some True
   \<and> (\<exists>r. recognizeGesture (Some lineHand) = Some r \<and> type r = Line
            \<and> GestureResult.confidence r = 0.85)"
  using recognizeGesture_priority_order[of lineHand] lineHand_poses
  by (auto simp: lineHand_def)

text \<open>
  C6: for 21 landmarks the position of the result is \<open>(1 - indexTip.x, indexTip.y)\<close>,
  with \<open>indexTip\<close> landmark 8, whatever kind is returned.
\<close>

theorem recognizeGesture_position_mirrored:
  assumes "length landmarks = 21"
  shows "\<exists>r. recognizeGesture (Some landmarks) = Some r
           \<and> position r = \<lparr>x = 1 - x (landmarks ! INDEX_FINGER_TIP),
                             y = y (landmarks ! INDEX_FINGER_TIP)\<rparr>"
proof -
  from assms have "21 \<le> length landmarks" by simp
  from recognizeGesture_classifies[OF this] show ?thesis
    by (auto simp: INDEX_FINGER_TIP_def)
qed

theorem recognizeGesture_position_mirrored_witness:
  "length noneHand = 21
   \<and> recognizeGesture (Some noneHand)
       = Some \<lparr>type = NoGesture, position = \<lparr>x = 1 - 0.5, y = 0.4\<rparr>, confidence = 0\<rparr>
   \<and> (\<exists>r. recognizeGesture (Some noneHand) = Some r
            \<and> position r = \<lparr>x = 1 - x (noneHand ! INDEX_FINGER_TIP),
                              y = y (noneHand ! INDEX_FINGER_TIP)\<rparr>)"
  using recognizeGesture_position_mirrored[of noneHand]
  by (simp add: recognizeGesture_def pose_defs noneHand_def landmark_def sqrt_less_numeral)

section \<open>Properties of the temporal stabilizer\<close>

lemma firstOccurrences_snoc:
  "firstOccurrences (ks @ [k]) = (if k \<in> set ks then firstOccurrences ks else firstOccurrences ks @ [k])"
  by (simp add: firstOccurrences_def)

lemma set_firstOccurrences [simp]: "set (firstOccurrences ks) = set ks"
  by (simp add: firstOccurrences_def)

lemma distinct_firstOccurrences [simp]: "distinct (firstOccurrences ks)"
  by (simp add: firstOccurrences_def)

lemma firstIndex_append_in: "k \<in> set ks \<Longrightarrow> firstIndex k (ks @ rest) = firstIndex k ks"
  by (induction ks) auto

lemma firstIndex_append_notin: "k \<notin> set ks \<Longrightarrow> firstIndex k (ks @ rest) = length ks + firstIndex k rest"
  by (induction ks) auto

lemma firstIndex_less: "k \<in> set ks \<Longrightarrow> firstIndex k ks < length ks"
  by (induction ks) auto

lemma firstOccurrences_order:
  "firstOccurrences ks = before @ k # after \<Longrightarrow> k' \<in> set after \<Longrightarrow>
     firstIndex k ks < firstIndex k' ks"
proof (induction ks arbitrary: after rule: rev_induct)
  case Nil
  then show ?case by (simp add: firstOccurrences_def)
next
  case (snoc a ks)
  show ?case
  proof (cases "a \<in> set ks")
    case True
    with snoc.prems have fo: "firstOccurrences ks = before @ k # after"
      by (simp add: firstOccurrences_snoc)
    have "k \<in> set ks" "k' \<in> set ks"
      using fo snoc.prems(2) set_firstOccurrences[of ks] by auto
    with snoc.IH[OF fo snoc.prems(2)] show ?thesis
      by (simp add: firstIndex_append_in)
  next
    case False
    with snoc.prems have fo: "firstOccurrences ks @ [a] = before @ k # after"
      by (simp add: firstOccurrences_snoc)
    from snoc.prems(2) have "after \<noteq> []" by auto
    then obtain after' where after: "after = after' @ [last after]"
      by (metis append_butlast_last_id)
    with fo have fo': "firstOccurrences ks = before @ k # after'" and la: "last after = a"
      by (metis append.assoc append_Cons butlast_snoc last_snoc)+
    have kin: "k \<in> set ks" using fo' set_firstOccurrences[of ks] by auto
    show ?thesis
    proof (cases "k' \<in> set after'")
      case True
      then have "k' \<in> set ks" using fo' set_firstOccurrences[of ks] by auto
      with snoc.IH[OF fo' True] kin show ?thesis by (simp add: firstIndex_append_in)
    next
      case False
      with snoc.prems(2) after la have "k' = a" by (metis Un_iff empty_iff empty_set set_ConsD set_append)
      with \<open>a \<notin> set ks\<close> kin show ?thesis
        by (simp add: firstIndex_append_in firstIndex_append_notin firstIndex_less)
    qed
  qed
qed

lemma map_fst_countGesture:
  "map fst (countGesture k m) = (if k \<in> set (map fst m) then map fst m else map fst m @ [k])"
  by (induction m) force+

lemma map_of_countGesture:
  "map_of (countGesture k m) = (map_of m)(k \<mapsto> (case map_of m k of None \<Rightarrow> 1 | Some n \<Rightarrow> n + 1))"
  by (induction m) (auto simp: fun_eq_iff)

lemma gestureCount_snoc: "gestureCount (w @ [g]) = countGesture (type g) (gestureCount w)"
  by (simp add: gestureCount_def)

lemma gestureCount_keys: "map fst (gestureCount w) = firstOccurrences (map type w)"
  by (induction w rule: rev_induct)
     (simp_all add: gestureCount_snoc map_fst_countGesture firstOccurrences_snoc, simp add: gestureCount_def firstOccurrences_def)

lemma gestureCount_lookup:
  "map_of (gestureCount w) k =
     (if k \<in> set (map type w) then Some (count_list (map type w) k) else None)"
proof (induction w rule: rev_induct)
  case Nil
  then show ?case by (simp add: gestureCount_def)
next
  case (snoc g w)
  then show ?case
    by (auto simp: gestureCount_snoc map_of_countGesture count_list_0_iff)
qed

lemma hd_insort_key: "hd (insort_key f a ys) = (if ys = [] \<or> f a \<le> f (hd ys) then a else hd ys)"
  by (cases ys) auto

lemma sort_key_eq_Nil [simp]: "(sort_key f m = []) = (m = [])"
  by (metis length_0_conv length_sort)

lemma sort_key_head_first_minimum:
  "m \<noteq> [] \<Longrightarrow>
     \<exists>pre post. m = pre @ hd (sort_key f m) # post
       \<and> (\<forall>a\<in>set pre. f (hd (sort_key f m)) < f a)
       \<and> (\<forall>a\<in>set post. f (hd (sort_key f m)) \<le> f a)"
proof (induction m)
  case Nil
  then show ?case by simp
next
  case (Cons a m)
  show ?case
  proof (cases "m = []")
    case True
    then show ?thesis by (intro exI[of _ "[]"]) simp
  next
    case False
    from Cons.IH[OF False] obtain pre post where
      m: "m = pre @ hd (sort_key f m) # post"
      and pre: "\<forall>b\<in>set pre. f (hd (sort_key f m)) < f b"
      and post: "\<forall>b\<in>set post. f (hd (sort_key f m)) \<le> f b"
      by blast
    let ?e = "hd (sort_key f m)"
    show ?thesis
    proof (cases "f a \<le> f ?e")
      case True
      then have hd: "hd (sort_key f (a # m)) = a"
        by (simp add: hd_insort_key)
      have "\<forall>b\<in>set m. f a \<le> f b"
      proof
        fix b assume "b \<in> set m"
        then have "b \<in> set pre \<or> b = ?e \<or> b \<in> set post"
          using m by (metis Un_iff set_ConsD set_append)
        with pre post True show "f a \<le> f b" by fastforce
      qed
      with hd show ?thesis
        by (intro exI[of _ "[]"] exI[of _ m]) simp
    next
      case no: False
      then have hd: "hd (sort_key f (a # m)) = ?e"
        using False by (simp add: hd_insort_key)
      have "a # m = (a # pre) @ ?e # post" using m by simp
      moreover have "\<forall>b\<in>set (a # pre). f ?e < f b" using pre no by auto
      ultimately show ?thesis using post hd by metis
    qed
  qed
qed

lemma gestureCount_eq_Nil [simp]: "(gestureCount w = []) = (w = [])"
  by (metis gestureCount_keys map_is_Nil_conv set_empty set_firstOccurrences)

lemma gestureCount_member:
  "((k, c) \<in> set (gestureCount w)) = (k \<in> set (map type w) \<and> c = count_list (map type w) k)"
proof -
  have "distinct (map fst (gestureCount w))" by (simp add: gestureCount_keys)
  then have "((k, c) \<in> set (gestureCount w)) = (map_of (gestureCount w) k = Some c)"
    by simp
  then show ?thesis by (auto simp: gestureCount_lookup)
qed

lemma sortedCounts_head:
  assumes "w \<noteq> []"
  shows "\<exists>k c rest. sortedCounts w = (k, c) # rest
           \<and> k \<in> set (map type w) \<and> c = count_list (map type w) k
           \<and> (\<forall>k'. count_list (map type w) k' \<le> c)
           \<and> (\<forall>k'. k' \<noteq> k \<and> count_list (map type w) k' = c \<longrightarrow>
                 firstIndex k (map type w) < firstIndex k' (map type w))"
proof -
  let ?f = "\<lambda>(k, c). - int c" and ?m = "gestureCount w" and ?ks = "map type w"
  have ne: "?m \<noteq> []" using assms by simp
  obtain k c where e: "hd (sort_key ?f ?m) = (k, c)" by (cases "hd (sort_key ?f ?m)")
  from sort_key_head_first_minimum[OF ne, of ?f] e obtain pre post where
    m: "?m = pre @ (k, c) # post"
    and pre: "\<forall>b\<in>set pre. ?f (k, c) < ?f b"
    and post: "\<forall>b\<in>set post. ?f (k, c) \<le> ?f b"
    by auto
  have "(k, c) \<in> set ?m" using m by (metis in_set_conv_decomp)
  then have kc: "k \<in> set ?ks" "c = count_list ?ks k"
    by (simp_all add: gestureCount_member)
  have cpos: "0 < c" using kc by (metis count_list_0_iff gr0I)
  have max: "count_list ?ks k' \<le> c" for k'
  proof (cases "k' \<in> set ?ks")
    case True
    then have "(k', count_list ?ks k') \<in> set ?m" by (simp add: gestureCount_member)
    then have "(k', count_list ?ks k') \<in> set pre \<or> (k', count_list ?ks k') = (k, c)
                 \<or> (k', count_list ?ks k') \<in> set post"
      using m by (metis Un_iff set_ConsD set_append)
    with pre post show ?thesis by fastforce
  next
    case False
    then show ?thesis by (simp add: count_list_0_iff)
  qed
  have tie: "firstIndex k ?ks < firstIndex k' ?ks"
    if "k' \<noteq> k" "count_list ?ks k' = c" for k'
  proof -
    from that cpos have "k' \<in> set ?ks" by (metis count_list_0_iff less_numeral_extra(3))
    with that have "(k', c) \<in> set ?m" by (simp add: gestureCount_member)
    then have "(k', c) \<in> set pre \<or> (k', c) = (k, c) \<or> (k', c) \<in> set post"
      using m by (metis Un_iff set_ConsD set_append)
    with pre that have "(k', c) \<in> set post" by fastforce
    then have "k' \<in> set (map fst post)" by force
    moreover have "firstOccurrences ?ks = map fst pre @ k # map fst post"
      using m gestureCount_keys[of w] by (metis (no_types, lifting) fst_conv list.simps(9) map_append)
    ultimately show ?thesis by (rule firstOccurrences_order[rotated])
  qed
  have "sort_key ?f ?m \<noteq> []" using ne by simp
  with e have "\<exists>rest. sortedCounts w = (k, c) # rest"
    unfolding sortedCounts_def by (metis list.collapse)
  with kc max tie show ?thesis by blast
qed

lemma ceiling_threshold: "\<lceil>real historySize * confidenceThreshold\<rceil> = 3"
  by (simp add: historySize_def confidenceThreshold_def)

lemma push_shift_window:
  "length xs \<le> cap \<Longrightarrow>
     (if length (xs @ [v]) > cap then tl (xs @ [v]) else xs @ [v])
       = drop (length (xs @ [v]) - cap) (xs @ [v])"
  by (cases xs) (auto simp: drop_Suc Suc_diff_le)

lemma drop_window_append:
  fixes xs :: "'a list"
  shows "drop (length (drop (length xs - cap) xs @ ys) - cap) (drop (length xs - cap) xs @ ys)
           = drop (length (xs @ ys) - cap) (xs @ ys)"
proof (cases "length xs \<le> cap")
  case True
  then show ?thesis by simp
next
  case False
  then have "length (drop (length xs - cap) xs @ ys) - cap = length ys" by simp
  moreover have "length (xs @ ys) - cap = (length xs - cap) + length ys" using False by simp
  ultimately show ?thesis by (simp add: add.commute)
qed

lemma addGesture_history:
  "gestureHistory (snd (addGesture g s)) =
     (if length (gestureHistory s @ [g]) > historySize then tl (gestureHistory s @ [g])
      else gestureHistory s @ [g])"
  by (simp add: addGesture_def Let_def split: list.splits)

lemma addGesture_history_last:
  "gestureHistory (snd (addGesture g s)) \<noteq> [] \<and> last (gestureHistory (snd (addGesture g s))) = g"
proof (cases "gestureHistory s")
  case Nil
  then show ?thesis by (simp add: addGesture_history historySize_def)
next
  case (Cons a as)
  then show ?thesis by (simp add: addGesture_history)
qed

lemma observeAll_history:
  "length (gestureHistory s) \<le> historySize \<Longrightarrow>
     gestureHistory (observeAll gestures s)
       = drop (length (gestureHistory s @ gestures) - historySize) (gestureHistory s @ gestures)"
proof (induction gestures arbitrary: s)
  case Nil
  then show ?case by (simp add: observeAll_def)
next
  case (Cons g gestures)
  let ?s1 = "snd (addGesture g s)"
  have h1: "gestureHistory ?s1
              = drop (length (gestureHistory s @ [g]) - historySize) (gestureHistory s @ [g])"
    using push_shift_window[OF Cons.prems, of g] by (simp only: addGesture_history)
  then have "length (gestureHistory ?s1) \<le> historySize" by simp
  from Cons.IH[OF this] have
    "gestureHistory (observeAll gestures ?s1)
       = drop (length (gestureHistory ?s1 @ gestures) - historySize) (gestureHistory ?s1 @ gestures)" .
  also have "\<dots> = drop (length ((gestureHistory s @ [g]) @ gestures) - historySize)
                     ((gestureHistory s @ [g]) @ gestures)"
    unfolding h1 by (rule drop_window_append)
  finally show ?case by (simp add: observeAll_def)
qed

lemma addGesture_selects:
  fixes g s
  defines "w \<equiv> gestureHistory (snd (addGesture g s))"
  defines "ks \<equiv> map type w"
  shows "\<exists>k c rest. sortedCounts w = (k, c) # rest
           \<and> k \<in> set ks \<and> c = count_list ks k
           \<and> (\<forall>k'. count_list ks k' \<le> c)
           \<and> (\<forall>k'. k' \<noteq> k \<and> count_list ks k' = c \<longrightarrow> firstIndex k ks < firstIndex k' ks)
           \<and> fst (addGesture g s) =
               (if 3 \<le> c
                then \<lparr>type = k, position = position g, GestureResult.confidence = real c / 5\<rparr>
                else \<lparr>type = NoGesture, position = position g, GestureResult.confidence = 0\<rparr>)"
proof -
  have w: "w \<noteq> []" "last w = g"
    using addGesture_history_last[of g s] by (simp_all add: w_def)
  from sortedCounts_head[OF w(1)] obtain k c rest where
    sel: "sortedCounts w = (k, c) # rest" "k \<in> set ks" "c = count_list ks k"
      "\<forall>k'. count_list ks k' \<le> c"
      "\<forall>k'. k' \<noteq> k \<and> count_list ks k' = c \<longrightarrow> firstIndex k ks < firstIndex k' ks"
    unfolding ks_def by blast
  have w_eq: "w = (if length (gestureHistory s @ [g]) > historySize
                   then tl (gestureHistory s @ [g]) else gestureHistory s @ [g])"
    by (simp add: w_def addGesture_history)
  have "fst (addGesture g s) =
          (if 3 \<le> c
           then \<lparr>type = k, position = position g, GestureResult.confidence = real c / 5\<rparr>
           else \<lparr>type = NoGesture, position = position g, GestureResult.confidence = 0\<rparr>)"
    using sel(1) w(2) unfolding w_eq
    by (simp add: addGesture_def Let_def ceiling_threshold) (simp add: historySize_def)
  with sel show ?thesis by blast
qed

lemma count_list_two_kinds:
  "k \<noteq> k' \<Longrightarrow> count_list ks k + count_list ks k' \<le> length ks"
  by (induction ks) auto

lemma count_list_replicate_same: "count_list (replicate n a) a = n"
  by (induction n) simp_all

lemma count_list_distinct: "distinct ks \<Longrightarrow> count_list ks k \<le> 1"
  by (induction ks) auto

text \<open>
  C2: feed any sequence \<open>prior\<close> of raw results to a new stabilizer, then \<open>raw\<close>. The
  window after the push holds the last five results fed. If a kind occurs at least
  \<open>ceil(5 * 0.6) = 3\<close> times in the window, it is the most frequent one and the result is
  that kind, at the position of \<open>raw\<close>, with confidence count/5; if no kind occurs three
  times the result is \<open>none\<close> at the position of \<open>raw\<close> with confidence 0. Five results
  of one kind give that kind with confidence 1; five results of five kinds give
  \<open>none\<close> with confidence 0.
\<close>

theorem addGesture_majority_of_window:
  fixes prior :: "GestureResult list" and raw :: GestureResult
  defines "s \<equiv> observeAll prior newGestureStabilizer"
  defines "out \<equiv> fst (addGesture raw s)"
  defines "window \<equiv> gestureHistory (snd (addGesture raw s))"
  defines "ks \<equiv> map type window"
  shows "window = drop (length (prior @ [raw]) - 5) (prior @ [raw])
    \<and> (\<forall>k. 3 \<le> count_list ks k \<longrightarrow>
          (\<forall>k'. count_list ks k' \<le> count_list ks k)
          \<and> out = \<lparr>type = k, position = position raw,
                    GestureResult.confidence = real (count_list ks k) / 5\<rparr>)
    \<and> ((\<forall>k. count_list ks k < 3) \<longrightarrow>
          out = \<lparr>type = NoGesture, position = position raw, GestureResult.confidence = 0\<rparr>)
    \<and> (length prior = 4 \<and> (\<forall>g \<in> set (prior @ [raw]). type g = same) \<longrightarrow>
          out = \<lparr>type = same, position = position raw, GestureResult.confidence = 1\<rparr>)
    \<and> (length prior = 4 \<and> distinct (map type (prior @ [raw])) \<longrightarrow>
          out = \<lparr>type = NoGesture, position = position raw, GestureResult.confidence = 0\<rparr>)"
proof -
  have s_hist: "gestureHistory s = drop (length prior - 5) prior"
    using observeAll_history[of newGestureStabilizer prior]
    by (simp add: s_def newGestureStabilizer_def historySize_def)
  then have "length (gestureHistory s) \<le> historySize" by (simp add: historySize_def)
  from push_shift_window[OF this, of raw]
  have "window = drop (length (gestureHistory s @ [raw]) - 5) (gestureHistory s @ [raw])"
    by (simp add: window_def addGesture_history historySize_def)
  also have "\<dots> = drop (length (prior @ [raw]) - 5) (prior @ [raw])"
    unfolding s_hist by (rule drop_window_append)
  finally have window: "window = drop (length (prior @ [raw]) - 5) (prior @ [raw])" .
  then have len: "length ks \<le> 5" by (simp add: ks_def)
  from addGesture_selects[of raw s] obtain k c where
    c: "c = count_list ks k" and
    max: "\<forall>k'. count_list ks k' \<le> c" and
    out: "out = (if 3 \<le> c
           then \<lparr>type = k, position = position raw, GestureResult.confidence = real c / 5\<rparr>
           else \<lparr>type = NoGesture, position = position raw, GestureResult.confidence = 0\<rparr>)"
    unfolding out_def window_def ks_def by blast
  have major: "(\<forall>k''. count_list ks k'' \<le> count_list ks k')
      \<and> out = \<lparr>type = k', position = position raw,
                GestureResult.confidence = real (count_list ks k') / 5\<rparr>"
    if "3 \<le> count_list ks k'" for k'
  proof -
    from that max have c3: "3 \<le> c" using le_trans by blast
    have "k' = k"
    proof (rule ccontr)
      assume "k' \<noteq> k"
      from count_list_two_kinds[OF this, of ks] that c3 c len show False by simp
    qed
    with c3 c max out show ?thesis by simp
  qed
  have minor: "out = \<lparr>type = NoGesture, position = position raw, GestureResult.confidence = 0\<rparr>"
    if "\<forall>k. count_list ks k < 3"
  proof -
    from that c have "\<not> 3 \<le> c" by (simp add: not_le)
    with out show ?thesis by simp
  qed
  have five_same: "out = \<lparr>type = same, position = position raw, GestureResult.confidence = 1\<rparr>"
    if "length prior = 4" "\<forall>g \<in> set (prior @ [raw]). type g = same"
  proof -
    from that(1) window have "ks = map type (prior @ [raw])" by (simp add: ks_def)
    moreover have "map type (prior @ [raw]) = replicate 5 same"
      using that by (intro replicate_eqI) auto
    ultimately have "count_list ks same = 5" by (simp add: count_list_replicate_same)
    with major[of same] show ?thesis by simp
  qed
  have five_distinct: "out = \<lparr>type = NoGesture, position = position raw, GestureResult.confidence = 0\<rparr>"
    if "length prior = 4" "distinct (map type (prior @ [raw]))"
  proof -
    from that(1) window have "ks = map type (prior @ [raw])" by (simp add: ks_def)
    with that(2) have "distinct ks" by simp
    then have "count_list ks k \<le> 1" for k
      by (rule count_list_distinct)
    then have "\<forall>k. count_list ks k < 3"
      by (metis le_less_trans one_less_numeral_iff semiring_norm(77))
    then show ?thesis by (rule minor)
  qed
  from window major minor five_same five_distinct show ?thesis by blast
qed

text \<open>
  C9: for every stabilizer state and raw result, \<open>mostFrequent\<close>, the head of the sorted
  tally of the window, is a kind of the highest count, and every other kind of the same
  count occurs for the first time later in the window; when that count is at least 3 the
  result is \<open>mostFrequent\<close>. A window of at most five results cannot hold two kinds three
  times each (\<open>count_list_two_kinds\<close>), so from a new stabilizer a tie only ever shows
  in the ranking, below the threshold.
\<close>

theorem addGesture_tie_break:
  fixes s :: GestureStabilizer and g :: GestureResult
  defines "out \<equiv> fst (addGesture g s)"
  defines "window \<equiv> gestureHistory (snd (addGesture g s))"
  defines "ks \<equiv> map type window"
  defines "mostFrequent \<equiv> hd (sortedCounts window)"
  shows "fst mostFrequent \<in> set ks
    \<and> snd mostFrequent = count_list ks (fst mostFrequent)
    \<and> (\<forall>k'. count_list ks k' \<le> snd mostFrequent)
    \<and> (\<forall>k'. k' \<noteq> fst mostFrequent \<and> count_list ks k' = snd mostFrequent \<longrightarrow>
          firstIndex (fst mostFrequent) ks < firstIndex k' ks)
    \<and> (3 \<le> snd mostFrequent \<longrightarrow>
          out = \<lparr>type = fst mostFrequent, position = position g,
                  GestureResult.confidence = real (snd mostFrequent) / 5\<rparr>)"
proof -
  from addGesture_selects[of g s] obtain k c rest where
    sel: "sortedCounts window = (k, c) # rest" "k \<in> set ks" "c = count_list ks k"
      "\<forall>k'. count_list ks k' \<le> c"
      "\<forall>k'. k' \<noteq> k \<and> count_list ks k' = c \<longrightarrow> firstIndex k ks < firstIndex k' ks"
      "out = (if 3 \<le> c
           then \<lparr>type = k, position = position g, GestureResult.confidence = real c / 5\<rparr>
           else \<lparr>type = NoGesture, position = position g, GestureResult.confidence = 0\<rparr>)"
    unfolding out_def window_def ks_def by blast
  from sel(1) have "mostFrequent = (k, c)" by (simp add: mostFrequent_def)
  with sel show ?thesis by simp
qed

theorem addGesture_majority_of_window_witness:
  "fst (addGesture (rawGesture Draw 0.4) (observeAll sameFour newGestureStabilizer))
     = \<lparr>type = Draw, position = \<lparr>x = 0.4, y = 0.4\<rparr>, GestureResult.confidence = 1\<rparr>
   \<and> fst (addGesture (rawGesture Rectangle 0.5) (observeAll distinctFour newGestureStabilizer))
     = \<lparr>type = NoGesture, position = \<lparr>x = 0.5, y = 0.5\<rparr>, GestureResult.confidence = 0\<rparr>
   \<and> gestureHistory (snd (addGesture (rawGesture Draw 0.7) (observeAll mixedSix newGestureStabilizer)))
     = [rawGesture Erase 0.3, rawGesture Line 0.4, rawGesture Line 0.5, rawGesture Line 0.6,
        rawGesture Draw 0.7]
   \<and> fst (addGesture (rawGesture Draw 0.7) (observeAll mixedSix newGestureStabilizer))
     = \<lparr>type = Line, position = \<lparr>x = 0.7, y = 0.7\<rparr>, GestureResult.confidence = 3 / 5\<rparr>"
proof -
  note same = addGesture_majority_of_window
    [where prior = sameFour and raw = "rawGesture Draw 0.4" and same = Draw]
  note dist = addGesture_majority_of_window
    [where prior = distinctFour and raw = "rawGesture Rectangle 0.5"]
  note mixed = addGesture_majority_of_window
    [where prior = mixedSix and raw = "rawGesture Draw 0.7"]
  have "length sameFour = 4
        \<and> (\<forall>g \<in> set (sameFour @ [rawGesture Draw 0.4]). type g = Draw)"
    by (simp add: sameFour_def rawGesture_def)
  with same[THEN conjunct2, THEN conjunct2, THEN conjunct2, THEN conjunct1]
  have 1: "fst (addGesture (rawGesture Draw 0.4) (observeAll sameFour newGestureStabilizer))
     = \<lparr>type = Draw, position = \<lparr>x = 0.4, y = 0.4\<rparr>, GestureResult.confidence = 1\<rparr>"
    by (simp add: rawGesture_def)
  have "length distinctFour = 4
        \<and> distinct (map type (distinctFour @ [rawGesture Rectangle 0.5]))"
    by (simp add: distinctFour_def rawGesture_def)
  with dist[THEN conjunct2, THEN conjunct2, THEN conjunct2, THEN conjunct2]
  have 2: "fst (addGesture (rawGesture Rectangle 0.5) (observeAll distinctFour newGestureStabilizer))
     = \<lparr>type = NoGesture, position = \<lparr>x = 0.5, y = 0.5\<rparr>, GestureResult.confidence = 0\<rparr>"
    by (simp add: rawGesture_def)
  from mixed[THEN conjunct1]
  have 3: "gestureHistory (snd (addGesture (rawGesture Draw 0.7) (observeAll mixedSix newGestureStabilizer)))
     = [rawGesture Erase 0.3, rawGesture Line 0.4, rawGesture Line 0.5, rawGesture Line 0.6,
        rawGesture Draw 0.7]"
    by (simp add: mixedSix_def)
  have "3 \<le> count_list (map type (gestureHistory (snd (addGesture (rawGesture Draw 0.7)
               (observeAll mixedSix newGestureStabilizer))))) Line"
    unfolding 3 by (simp add: rawGesture_def)
  with mixed[THEN conjunct2, THEN conjunct1, rule_format, of Line]
  have 4: "fst (addGesture (rawGesture Draw 0.7) (observeAll mixedSix newGestureStabilizer))
     = \<lparr>type = Line, position = \<lparr>x = 0.7, y = 0.7\<rparr>, GestureResult.confidence = 3 / 5\<rparr>"
    unfolding 3 by (simp add: rawGesture_def)
  from 1 2 3 4 show ?thesis by blast
qed

theorem addGesture_tie_break_witness:
  "map type (gestureHistory (snd (addGesture (rawGesture Line 0.4) tiedFour)))
     = [Line, Draw, Draw, Line]
   \<and> hd (sortedCounts (gestureHistory (snd (addGesture (rawGesture Line 0.4) tiedFour)))) = (Line, 2)
   \<and> count_list [Line, Draw, Draw, Line] Draw = 2
   \<and> firstIndex Line [Line, Draw, Draw, Line] < firstIndex Draw [Line, Draw, Draw, Line]
   \<and> map type (gestureHistory (snd (addGesture (rawGesture Draw 0.6) tiedSix)))
     = [Draw, Line, Draw, Line, Line, Draw]
   \<and> hd (sortedCounts (gestureHistory (snd (addGesture (rawGesture Draw 0.6) tiedSix)))) = (Draw, 3)
   \<and> count_list [Draw, Line, Draw, Line, Line, Draw] Line = 3
   \<and> firstIndex Draw [Draw, Line, Draw, Line, Line, Draw]
       < firstIndex Line [Draw, Line, Draw, Line, Line, Draw]
   \<and> fst (addGesture (rawGesture Draw 0.6) tiedSix)
       = \<lparr>type = Draw, position = \<lparr>x = 0.6, y = 0.6\<rparr>, GestureResult.confidence = 3 / 5\<rparr>"
proof -
  note four = addGesture_tie_break[where g = "rawGesture Line 0.4" and s = tiedFour]
  note six = addGesture_tie_break[where g = "rawGesture Draw 0.6" and s = tiedSix]
  have w4: "gestureHistory (snd (addGesture (rawGesture Line 0.4) tiedFour))
              = [rawGesture Line 0.1, rawGesture Draw 0.2, rawGesture Draw 0.3, rawGesture Line 0.4]"
    by (simp add: addGesture_history tiedFour_def historySize_def)
  have k4: "map type [rawGesture Line 0.1, rawGesture Draw 0.2, rawGesture Draw 0.3, rawGesture Line 0.4]
              = [Line, Draw, Draw, Line]"
    by (simp add: rawGesture_def)
  have h4: "hd (sortedCounts [rawGesture Line 0.1, rawGesture Draw 0.2, rawGesture Draw 0.3,
              rawGesture Line 0.4]) = (Line, 2)"
    by (simp add: sortedCounts_def gestureCount_def rawGesture_def)
  have c4: "count_list [Line, Draw, Draw, Line] Draw = 2" by simp
  from four[THEN conjunct2, THEN conjunct2, THEN conjunct2, THEN conjunct1, rule_format, of Draw]
  have t4: "firstIndex Line [Line, Draw, Draw, Line] < firstIndex Draw [Line, Draw, Draw, Line]"
    unfolding w4 k4 h4 by simp
  have w6: "gestureHistory (snd (addGesture (rawGesture Draw 0.6) tiedSix))
              = [rawGesture Draw 0.1, rawGesture Line 0.2, rawGesture Draw 0.3, rawGesture Line 0.4,
                 rawGesture Line 0.5, rawGesture Draw 0.6]"
    by (simp add: addGesture_history tiedSix_def historySize_def)
  have k6: "map type [rawGesture Draw 0.1, rawGesture Line 0.2, rawGesture Draw 0.3, rawGesture Line 0.4,
                 rawGesture Line 0.5, rawGesture Draw 0.6] = [Draw, Line, Draw, Line, Line, Draw]"
    by (simp add: rawGesture_def)
  have h6: "hd (sortedCounts [rawGesture Draw 0.1, rawGesture Line 0.2, rawGesture Draw 0.3,
              rawGesture Line 0.4, rawGesture Line 0.5, rawGesture Draw 0.6]) = (Draw, 3)"
    by (simp add: sortedCounts_def gestureCount_def rawGesture_def)
  have c6: "count_list [Draw, Line, Draw, Line, Line, Draw] Line = 3" by simp
  from six[THEN conjunct2, THEN conjunct2, THEN conjunct2, THEN conjunct1, rule_format, of Line]
  have t6: "firstIndex Draw [Draw, Line, Draw, Line, Line, Draw]
              < firstIndex Line [Draw, Line, Draw, Line, Line, Draw]"
    unfolding w6 k6 h6 by simp
  from six[THEN conjunct2, THEN conjunct2, THEN conjunct2, THEN conjunct2]
  have o6: "fst (addGesture (rawGesture Draw 0.6) tiedSix)
       = \<lparr>type = Draw, position = \<lparr>x = 0.6, y = 0.6\<rparr>, GestureResult.confidence = 3 / 5\<rparr>"
    unfolding w6 k6 h6 by (simp add: rawGesture_def)
  from w4 k4 h4 c4 t4 w6 k6 h6 c6 t6 o6 show ?thesis by simp
qed

section \<open>Properties of the trajectory accumulator and the shape fitter\<close>

lemma addPoint_trackPoints:
  "trackPoints (addPoint now point s) =
     (if length (trackPoints s @ [toTrackPoint (now, point)]) > maxTrackPoints
      then tl (trackPoints s @ [toTrackPoint (now, point)])
      else trackPoints s @ [toTrackPoint (now, point)])"
  by (simp add: addPoint_def toTrackPoint_def Let_def)

lemma addPoints_trackPoints:
  "length (trackPoints s) \<le> maxTrackPoints \<Longrightarrow>
     trackPoints (addPoints inputs s)
       = drop (length (trackPoints s @ map toTrackPoint inputs) - maxTrackPoints)
              (trackPoints s @ map toTrackPoint inputs)"
proof (induction inputs arbitrary: s)
  case Nil
  then show ?case by (simp add: addPoints_def)
next
  case (Cons input inputs)
  let ?s1 = "addPoint (fst input) (snd input) s"
  let ?pushed = "trackPoints s @ [toTrackPoint input]"
  have h1: "trackPoints ?s1 = drop (length ?pushed - maxTrackPoints) ?pushed"
    using push_shift_window[OF Cons.prems, of "toTrackPoint input"]
    by (simp only: addPoint_trackPoints prod.collapse)
  then have "length (trackPoints ?s1) \<le> maxTrackPoints" by simp
  from Cons.IH[OF this] have
    "trackPoints (addPoints inputs ?s1)
       = drop (length (trackPoints ?s1 @ map toTrackPoint inputs) - maxTrackPoints)
              (trackPoints ?s1 @ map toTrackPoint inputs)" .
  also have "\<dots> = drop (length (?pushed @ map toTrackPoint inputs) - maxTrackPoints)
                     (?pushed @ map toTrackPoint inputs)"
    unfolding h1 by (rule drop_window_append)
  finally show ?case by (simp add: addPoints_def)
qed

text \<open>
  C7: after any sequence of \<open>addPoint\<close> calls on a new recognizer the buffer holds at most
  50 points, namely the last 50 added, in the order added; one more \<open>addPoint\<close> appends
  the new point and, when the buffer is full, drops its first point and no other. After
  60 calls \<open>getTrackPoints\<close> returns exactly the 50 points added last. The bound is
  kept by \<open>addPoint\<close> from any recognizer that meets it, and \<open>clearTrack\<close> empties the
  buffer.
\<close>

theorem trajectory_buffer_fifo:
  fixes inputs :: "(real \<times> Point2D) list" and now :: real and point :: Point2D
  defines "s \<equiv> addPoints inputs newShapeRecognizer"
  defines "added \<equiv> map toTrackPoint inputs"
  shows "length (trackPoints s) \<le> 50
    \<and> fst (getTrackPoints s) = drop (length added - 50) added
    \<and> trackPoints (addPoint now point s) =
        (if length (trackPoints s) < 50 then trackPoints s @ [toTrackPoint (now, point)]
         else tl (trackPoints s) @ [toTrackPoint (now, point)])
    \<and> (length inputs = 60 \<longrightarrow>
          length (fst (getTrackPoints s)) = 50 \<and> fst (getTrackPoints s) = drop 10 added)
    \<and> (length (trackPoints s0) \<le> 50 \<longrightarrow> length (trackPoints (addPoint now point s0)) \<le> 50)
    \<and> trackPoints (clearTrack s0) = []"
proof -
  have tp: "trackPoints s = drop (length added - 50) added"
    using addPoints_trackPoints[of newShapeRecognizer inputs]
    by (simp add: s_def added_def newShapeRecognizer_def maxTrackPoints_def)
  then have len: "length (trackPoints s) \<le> 50" by simp
  have step: "trackPoints (addPoint now point s) =
        (if length (trackPoints s) < 50 then trackPoints s @ [toTrackPoint (now, point)]
         else tl (trackPoints s) @ [toTrackPoint (now, point)])"
  proof (cases "trackPoints s")
    case Nil
    then show ?thesis by (simp add: addPoint_trackPoints maxTrackPoints_def)
  next
    case (Cons a as)
    with len show ?thesis by (auto simp: addPoint_trackPoints maxTrackPoints_def)
  qed
  have get: "fst (getTrackPoints s) = drop (length added - 50) added"
    using tp by (simp add: getTrackPoints_def)
  have "length inputs = 60 \<longrightarrow>
          length (fst (getTrackPoints s)) = 50 \<and> fst (getTrackPoints s) = drop 10 added"
    unfolding get by (simp add: added_def)
  moreover have "length (trackPoints s0) \<le> 50 \<longrightarrow>
          length (trackPoints (addPoint now point s0)) \<le> 50"
    by (simp add: addPoint_trackPoints maxTrackPoints_def)
  moreover have "trackPoints (clearTrack s0) = []" by (simp add: clearTrack_def)
  ultimately show ?thesis using get len step by blast
qed

theorem trajectory_buffer_fifo_witness:
  "length (map sample [0..<60]) = 60
   \<and> fst (getTrackPoints (addPoints (map sample [0..<60]) newShapeRecognizer))
       = map (toTrackPoint \<circ> sample) [10..<60]
   \<and> length (fst (getTrackPoints (addPoints (map sample [0..<60]) newShapeRecognizer))) = 50"
  using trajectory_buffer_fifo[where inputs = "map sample [0..<60]"]
  by (simp add: drop_map)

lemma onSegment_parametric:
  assumes "0 \<le> t" "t \<le> 1"
    and "x point = x lineStart + t * (x lineEnd - x lineStart)"
    and "y point = y lineStart + t * (y lineEnd - y lineStart)"
  shows "onSegment point lineStart lineEnd"
proof -
  let ?C = "x lineEnd - x lineStart" and ?D = "y lineEnd - y lineStart"
  have A: "x point - x lineStart = t * ?C" and B: "y point - y lineStart = t * ?D"
    using assms by simp_all
  have dot: "t * ?C * ?C + t * ?D * ?D = t * (?C * ?C + ?D * ?D)" by (simp add: algebra_simps)
  have nn: "0 \<le> ?C * ?C + ?D * ?D" by simp
  have "0 \<le> t * (?C * ?C + ?D * ?D)" using assms(1) nn by (rule mult_nonneg_nonneg)
  moreover have "t * (?C * ?C + ?D * ?D) \<le> ?C * ?C + ?D * ?D"
    using mult_right_mono[OF assms(2) nn] by simp
  ultimately show ?thesis
    unfolding onSegment_def Let_def A B dot by (simp add: algebra_simps)
qed

lemma onSegment_then_parametric:
  assumes on: "onSegment point lineStart lineEnd"
    and len: "(x lineEnd - x lineStart) * (x lineEnd - x lineStart)
              + (y lineEnd - y lineStart) * (y lineEnd - y lineStart) \<noteq> 0"
  shows "\<exists>t. 0 \<le> t \<and> t \<le> 1
           \<and> x point = x lineStart + t * (x lineEnd - x lineStart)
           \<and> y point = y lineStart + t * (y lineEnd - y lineStart)"
proof -
  define A B C D where abcd: "A = x point - x lineStart" "B = y point - y lineStart"
    "C = x lineEnd - x lineStart" "D = y lineEnd - y lineStart"
  define lenSq where "lenSq = C * C + D * D"
  define t where "t = (A * C + B * D) / lenSq"
  from on have cross: "A * D - B * C = 0" and lo: "0 \<le> A * C + B * D"
    and hi: "A * C + B * D \<le> lenSq"
    by (simp_all add: onSegment_def Let_def abcd lenSq_def)
  from len have nz: "lenSq \<noteq> 0" by (simp add: lenSq_def abcd)
  have "0 \<le> lenSq" by (simp add: lenSq_def)
  with nz have pos: "0 < lenSq" by simp
  have t0: "0 \<le> t" using lo pos by (simp add: t_def)
  have t1: "t \<le> 1" using hi pos by (simp add: t_def)
  have ad: "A * D = B * C" using cross by simp
  have "(A * C + B * D) * C = A * lenSq"
  proof -
    have "(A * C + B * D) * C = A * C * C + (B * C) * D" by (simp add: algebra_simps)
    also have "\<dots> = A * C * C + (A * D) * D" by (simp only: ad)
    also have "\<dots> = A * lenSq" by (simp add: lenSq_def algebra_simps)
    finally show ?thesis .
  qed
  then have dx: "A = t * C" using nz by (simp add: t_def field_simps)
  have "(A * C + B * D) * D = B * lenSq"
  proof -
    have "(A * C + B * D) * D = (A * D) * C + B * D * D" by (simp add: algebra_simps)
    also have "\<dots> = (B * C) * C + B * D * D" by (simp only: ad)
    also have "\<dots> = B * lenSq" by (simp add: lenSq_def algebra_simps)
    finally show ?thesis .
  qed
  then have dy: "B = t * D" using nz by (simp add: t_def field_simps)
  from dx dy have "x point = x lineStart + t * (x lineEnd - x lineStart)"
    "y point = y lineStart + t * (y lineEnd - y lineStart)"
    by (simp_all add: abcd algebra_simps)
  with t0 t1 show ?thesis by blast
qed

lemma pointToLineDistance_onSegment:
  assumes on: "onSegment point lineStart lineEnd"
    and len: "(x lineEnd - x lineStart) * (x lineEnd - x lineStart)
              + (y lineEnd - y lineStart) * (y lineEnd - y lineStart) \<noteq> 0"
  shows "pointToLineDistance point lineStart lineEnd = 0"
proof -
  define A B C D where abcd: "A = x point - x lineStart" "B = y point - y lineStart"
    "C = x lineEnd - x lineStart" "D = y lineEnd - y lineStart"
  define lenSq where "lenSq = C * C + D * D"
  define param where "param = (A * C + B * D) / lenSq"
  from on have cross: "A * D - B * C = 0" and lo: "0 \<le> A * C + B * D"
    and hi: "A * C + B * D \<le> lenSq"
    by (simp_all add: onSegment_def Let_def abcd lenSq_def)
  from len have nz: "lenSq \<noteq> 0" by (simp add: lenSq_def abcd)
  have "0 \<le> lenSq" by (simp add: lenSq_def)
  with nz have pos: "0 < lenSq" by simp
  have p0: "\<not> param < 0" using lo pos by (simp add: param_def not_less)
  have p1: "\<not> param > 1" using hi pos by (simp add: param_def not_less)
  have ad: "A * D = B * C" using cross by simp
  have "(A * C + B * D) * C = A * lenSq"
  proof -
    have "(A * C + B * D) * C = A * C * C + (B * C) * D" by (simp add: algebra_simps)
    also have "\<dots> = A * C * C + (A * D) * D" by (simp only: ad)
    also have "\<dots> = A * lenSq" by (simp add: lenSq_def algebra_simps)
    finally show ?thesis .
  qed
  then have dx: "A - param * C = 0" using nz by (simp add: param_def field_simps)
  have "(A * C + B * D) * D = B * lenSq"
  proof -
    have "(A * C + B * D) * D = (A * D) * C + B * D * D" by (simp add: algebra_simps)
    also have "\<dots> = (B * C) * C + B * D * D" by (simp only: ad)
    also have "\<dots> = B * lenSq" by (simp add: lenSq_def algebra_simps)
    finally show ?thesis .
  qed
  then have dy: "B - param * D = 0" using nz by (simp add: param_def field_simps)
  have "pointToLineDistance point lineStart lineEnd =
          sqrt ((x point - (x lineStart + param * C)) * (x point - (x lineStart + param * C))
              + (y point - (y lineStart + param * D)) * (y point - (y lineStart + param * D)))"
    using nz p0 p1
    by (simp add: pointToLineDistance_def Let_def abcd[symmetric] lenSq_def[symmetric]
          param_def[symmetric])
  also have "x point - (x lineStart + param * C) = A - param * C" by (simp add: abcd)
  also have "y point - (y lineStart + param * D) = B - param * D" by (simp add: abcd)
  finally show ?thesis by (simp add: dx dy)
qed

lemma fold_add_zero:
  "(\<forall>i \<in> set indices. f i = (0::real)) \<Longrightarrow> fold (\<lambda>i total. total + f i) indices a = a"
  by (induction indices arbitrary: a) simp_all

lemma trackPointAt_in_range: "i < length pts \<Longrightarrow> trackPointAt pts i = Some (pts ! i)"
  by (simp add: trackPointAt_def)

lemma detectLine_returns:
  assumes "3 \<le> length (trackPoints s)"
  shows "\<exists>r. detectLine s = Some (r, s) \<and> shape r = ShapeLine
           \<and> points r = Some (LinePoints (hd (trackPoints s)) (last (trackPoints s)))"
proof -
  from assms have ne: "trackPoints s \<noteq> []" by auto
  have "trackPointAt (trackPoints s) 0 = Some (hd (trackPoints s))"
    using ne by (simp add: trackPointAt_def hd_conv_nth)
  moreover have "trackPointAt (trackPoints s) (length (trackPoints s) - 1) = Some (last (trackPoints s))"
    using ne by (simp add: trackPointAt_def last_conv_nth)
  moreover have "length (trackPoints s) \<noteq> 2" using assms by simp
  ultimately show ?thesis by (simp add: detectLine_def Let_def)
qed

lemma detectCircle_returns:
  assumes "trackPoints s \<noteq> []"
  shows "\<exists>r. detectCircle now s = Some (r, s) \<and> shape r = ShapeCircle"
  using assms by (simp add: detectCircle_def Let_def)

lemma detectRectangle_returns:
  assumes "trackPoints s \<noteq> []"
  shows "\<exists>r. detectRectangle now1 now2 s = Some (r, s) \<and> shape r = ShapeRectangle"
  using assms by (cases "trackPoints s") (simp_all add: detectRectangle_def Let_def)

lemma recognizeShape_cascade:
  assumes "10 \<le> length (trackPoints s)"
  shows "\<exists>lineResult circleResult rectangleResult.
           detectLine s = Some (lineResult, s)
         \<and> detectCircle nowCircle s = Some (circleResult, s)
         \<and> detectRectangle nowRect1 nowRect2 s = Some (rectangleResult, s)
         \<and> shape lineResult = ShapeLine \<and> shape circleResult = ShapeCircle
         \<and> shape rectangleResult = ShapeRectangle
         \<and> recognizeShape nowCircle nowRect1 nowRect2 s =
             Some (if confidence lineResult > 0.7 then lineResult
                   else if confidence circleResult > 0.6 then circleResult
                   else if confidence rectangleResult > 0.6 then rectangleResult
                   else \<lparr>shape = ShapeNone, confidence = 0, points = None\<rparr>, s)"
proof -
  from assms have ne: "trackPoints s \<noteq> []" and three: "3 \<le> length (trackPoints s)" by auto
  from detectLine_returns[OF three] obtain l where
    l: "detectLine s = Some (l, s)" "shape l = ShapeLine" by blast
  from detectCircle_returns[OF ne] obtain c where
    c: "detectCircle nowCircle s = Some (c, s)" "shape c = ShapeCircle" by blast
  from detectRectangle_returns[OF ne] obtain r where
    r: "detectRectangle nowRect1 nowRect2 s = Some (r, s)" "shape r = ShapeRectangle" by blast
  have "recognizeShape nowCircle nowRect1 nowRect2 s =
          Some (if confidence l > 0.7 then l
                else if confidence c > 0.6 then c
                else if confidence r > 0.6 then r
                else \<lparr>shape = ShapeNone, confidence = 0, points = None\<rparr>, s)"
    using assms l(1) c(1) r(1)
    by (simp add: recognizeShape_def minPointsForRecognition_def noShape_def)
  with l c r show ?thesis by blast
qed

lemma recognizeShape_returns: "\<exists>r. recognizeShape nowCircle nowRect1 nowRect2 s = Some (r, s)"
proof (cases "length (trackPoints s) < 10")
  case True
  then show ?thesis by (simp add: recognizeShape_def minPointsForRecognition_def)
next
  case False
  then have "10 \<le> length (trackPoints s)" by simp
  from recognizeShape_cascade[OF this] show ?thesis by blast
qed

lemma detectLine_onSegment:
  assumes len: "3 \<le> length (trackPoints s)"
    and on: "\<forall>p \<in> set (trackPoints s). onSegment p (hd (trackPoints s)) (last (trackPoints s))"
    and far: "sqrt ((x (last (trackPoints s)) - x (hd (trackPoints s))) ^ 2
                  + (y (last (trackPoints s)) - y (hd (trackPoints s))) ^ 2) > 0.1"
  shows "(\<forall>p \<in> set (trackPoints s).
            pointToLineDistance p (hd (trackPoints s)) (last (trackPoints s)) = 0)
       \<and> detectLine s =
           Some (\<lparr>shape = ShapeLine, confidence = 1,
                  points = Some (LinePoints (hd (trackPoints s)) (last (trackPoints s)))\<rparr>, s)"
proof -
  let ?pts = "trackPoints s"
  let ?a = "hd ?pts" and ?b = "last ?pts"
  from len have ne: "?pts \<noteq> []" by auto
  have start: "trackPointAt ?pts 0 = Some ?a"
    using ne by (simp add: trackPointAt_def hd_conv_nth)
  have end': "trackPointAt ?pts (length ?pts - 1) = Some ?b"
    using ne by (simp add: trackPointAt_def last_conv_nth)
  have "(0::real) < 0.1" by simp
  from this far have "0 < sqrt ((x ?b - x ?a) ^ 2 + (y ?b - y ?a) ^ 2)" by (rule less_trans)
  then have "(x ?b - x ?a) ^ 2 + (y ?b - y ?a) ^ 2 \<noteq> 0" by auto
  then have lenSq: "(x ?b - x ?a) * (x ?b - x ?a) + (y ?b - y ?a) * (y ?b - y ?a) \<noteq> 0"
    by (simp add: power2_eq_square)
  have zero: "\<forall>p \<in> set ?pts. pointToLineDistance p ?a ?b = 0"
    using on lenSq by (auto intro: pointToLineDistance_onSegment)
  have "\<forall>i \<in> set [1 ..< length ?pts - 1]. pointToLineDistance (?pts ! i) ?a ?b = 0"
    using zero by (auto intro: nth_mem)
  then have total: "fold (\<lambda>i total. total + pointToLineDistance (?pts ! i) ?a ?b)
                      [1 ..< length ?pts - 1] 0 = 0"
    by (rule fold_add_zero)
  have "length ?pts \<noteq> 2" using len by simp
  then have "detectLine s = Some (\<lparr>shape = ShapeLine, confidence = 1,
                  points = Some (LinePoints ?a ?b)\<rparr>, s)"
    using far start end' total by (simp add: detectLine_def Let_def)
  with zero show ?thesis by blast
qed

lemma lineTrack_line:
  "detectLine lineTrack =
     Some (\<lparr>shape = ShapeLine, confidence = 1,
            points = Some (LinePoints (trackPoint 0.1 0.1 0) (trackPoint 0.8 0.1 10))\<rparr>, lineTrack)"
proof -
  have "3 \<le> length (trackPoints lineTrack)" by (simp add: lineTrack_def)
  moreover have "\<forall>p \<in> set (trackPoints lineTrack).
      onSegment p (hd (trackPoints lineTrack)) (last (trackPoints lineTrack))"
    by (simp add: lineTrack_def trackPoint_def onSegment_def)
  moreover have "sqrt ((x (last (trackPoints lineTrack)) - x (hd (trackPoints lineTrack))) ^ 2
      + (y (last (trackPoints lineTrack)) - y (hd (trackPoints lineTrack))) ^ 2) > 0.1"
    by (rule real_less_rsqrt) (simp add: lineTrack_def trackPoint_def power2_eq_square)
  ultimately show ?thesis
    using detectLine_onSegment[of lineTrack] by (simp add: lineTrack_def)
qed

lemma stillTrack_line: "\<exists>r. detectLine stillTrack = Some (r, stillTrack) \<and> confidence r = 0"
  by (simp add: detectLine_def stillTrack_def trackPointAt_def trackPoint_def Let_def)

lemma stillTrack_circle: "\<exists>r. detectCircle 0 stillTrack = Some (r, stillTrack) \<and> confidence r = 0"
  by (simp add: detectCircle_def stillTrack_def trackPoint_def Let_def numeral_eq_Suc)

lemma stillTrack_rectangle: "\<exists>r. detectRectangle 0 0 stillTrack = Some (r, stillTrack) \<and> confidence r = 0"
  by (simp add: detectRectangle_def stillTrack_def trackPoint_def Let_def numeral_eq_Suc)

lemma squareTrack_line: "\<exists>r. detectLine squareTrack = Some (r, squareTrack) \<and> confidence r = 0"
  by (simp add: detectLine_def squareTrack_def trackPointAt_def trackPoint_def Let_def
        pointToLineDistance_def upt_rec[of _ "numeral _"] upt_rec[of _ "Suc _"])

lemma sqrt_2_bound: "3 < 60 / sqrt 2"
proof -
  have "sqrt 2 < 20" by (rule real_less_lsqrt) simp_all
  then show ?thesis by (simp add: pos_less_divide_eq)
qed

lemma squareTrack_circle:
  "\<exists>r. detectCircle 0 squareTrack = Some (r, squareTrack) \<and> confidence r = 1"
  using sqrt_2_bound
  by (simp add: detectCircle_def squareTrack_def trackPoint_def Let_def power2_eq_square
        real_sqrt_divide)

lemma squareTrack_rectangle:
  "\<exists>r. detectRectangle 0 0 squareTrack = Some (r, squareTrack) \<and> confidence r = 1"
  by (simp add: detectRectangle_def squareTrack_def trackPoint_def Let_def)

text \<open>
  C3: with fewer than 10 buffered points \<open>recognizeShape\<close> returns
  \<open>{shape: none, confidence: 0}\<close>, whatever the points are.
\<close>

theorem recognizeShape_too_few_points:
  assumes "length (trackPoints s) < 10"
  shows "recognizeShape nowCircle nowRect1 nowRect2 s
           = Some (\<lparr>shape = ShapeNone, confidence = 0, points = None\<rparr>, s)"
  using assms by (simp add: recognizeShape_def minPointsForRecognition_def noShape_def)
theorem recognizeShape_too_few_points_witness:
  "length (trackPoints shortTrack) < 10
   \<and> list_all (\<lambda>p. onSegment p (hd (trackPoints shortTrack)) (last (trackPoints shortTrack)))
        (trackPoints shortTrack)
   \<and> recognizeShape 0 0 0 shortTrack
       = Some (\<lparr>shape = ShapeNone, confidence = 0, points = None\<rparr>, shortTrack)"
proof -
  have few: "length (trackPoints shortTrack) < 10"
    by (simp add: shortTrack_def lineTrack_def)
  have "list_all (\<lambda>p. onSegment p (hd (trackPoints shortTrack)) (last (trackPoints shortTrack)))
        (trackPoints shortTrack)"
    by (simp add: shortTrack_def lineTrack_def trackPoint_def onSegment_def)
  with few recognizeShape_too_few_points[OF few, of 0 0 0] show ?thesis by blast
qed

text \<open>
  C4: with at least 10 buffered points all three detectors return, and the result is the
  line fit if its confidence exceeds 0.7, else the circle fit if its confidence exceeds
  0.6, else the rectangle fit if its confidence exceeds 0.6, else
  \<open>{shape: none, confidence: 0}\<close>.
\<close>

theorem recognizeShape_priority_order:
  assumes "10 \<le> length (trackPoints s)"
  shows "\<exists>lineResult circleResult rectangleResult.
           detectLine s = Some (lineResult, s)
         \<and> detectCircle nowCircle s = Some (circleResult, s)
         \<and> detectRectangle nowRect1 nowRect2 s = Some (rectangleResult, s)
         \<and> shape lineResult = ShapeLine \<and> shape circleResult = ShapeCircle
         \<and> shape rectangleResult = ShapeRectangle
         \<and> recognizeShape nowCircle nowRect1 nowRect2 s =
             Some (if confidence lineResult > 0.7 then lineResult
                   else if confidence circleResult > 0.6 then circleResult
                   else if confidence rectangleResult > 0.6 then rectangleResult
                   else \<lparr>shape = ShapeNone, confidence = 0, points = None\<rparr>, s)"
  using assms by (rule recognizeShape_cascade)
theorem recognizeShape_priority_order_witness:
  "10 \<le> length (trackPoints lineTrack)
   \<and> recognizeShape 0 0 0 lineTrack =
       Some (\<lparr>shape = ShapeLine, confidence = 1,
              points = Some (LinePoints (trackPoint 0.1 0.1 0) (trackPoint 0.8 0.1 10))\<rparr>, lineTrack)
   \<and> 10 \<le> length (trackPoints squareTrack)
   \<and> (\<exists>r. recognizeShape 0 0 0 squareTrack = Some (r, squareTrack)
            \<and> shape r = ShapeCircle \<and> confidence r = 1)
   \<and> (\<exists>r. detectRectangle 0 0 squareTrack = Some (r, squareTrack) \<and> confidence r = 1)
   \<and> 10 \<le> length (trackPoints stillTrack)
   \<and> recognizeShape 0 0 0 stillTrack
       = Some (\<lparr>shape = ShapeNone, confidence = 0, points = None\<rparr>, stillTrack)"
proof -
  have l1: "10 \<le> length (trackPoints lineTrack)" by (simp add: lineTrack_def)
  have l2: "10 \<le> length (trackPoints squareTrack)" by (simp add: squareTrack_def)
  have l3: "10 \<le> length (trackPoints stillTrack)" by (simp add: stillTrack_def)
  from recognizeShape_priority_order[OF l1, of 0 0 0] lineTrack_line
  have 1: "recognizeShape 0 0 0 lineTrack =
       Some (\<lparr>shape = ShapeLine, confidence = 1,
              points = Some (LinePoints (trackPoint 0.1 0.1 0) (trackPoint 0.8 0.1 10))\<rparr>, lineTrack)"
    by auto
  from recognizeShape_priority_order[OF l2, of 0 0 0] squareTrack_line squareTrack_circle
  have 2: "\<exists>r. recognizeShape 0 0 0 squareTrack = Some (r, squareTrack)
            \<and> shape r = ShapeCircle \<and> confidence r = 1"
    by auto
  from recognizeShape_priority_order[OF l3, of 0 0 0] stillTrack_line stillTrack_circle
    stillTrack_rectangle
  have 3: "recognizeShape 0 0 0 stillTrack
       = Some (\<lparr>shape = ShapeNone, confidence = 0, points = None\<rparr>, stillTrack)"
    by auto
  from l1 l2 l3 1 2 3 squareTrack_rectangle show ?thesis by blast
qed









text \<open>
  C10: \<open>recognizeShape\<close> returns on every recognizer and leaves it as it was: the
  buffered points, and so what \<open>getTrackPoints\<close> returns, are the same after the call as
  before. The same holds for each detector where it returns.
\<close>

theorem recognizeShape_preserves_buffer:
  "(\<exists>r. recognizeShape nowCircle nowRect1 nowRect2 s = Some (r, s))
   \<and> (\<forall>r s'. recognizeShape nowCircle nowRect1 nowRect2 s = Some (r, s') \<longrightarrow>
         trackPoints s' = trackPoints s \<and> fst (getTrackPoints s') = fst (getTrackPoints s))
   \<and> (\<forall>r s'. detectLine s = Some (r, s') \<longrightarrow> trackPoints s' = trackPoints s)
   \<and> (\<forall>r s'. detectCircle nowCircle s = Some (r, s') \<longrightarrow> trackPoints s' = trackPoints s)
   \<and> (\<forall>r s'. detectRectangle nowRect1 nowRect2 s = Some (r, s') \<longrightarrow>
         trackPoints s' = trackPoints s)"
proof -
  have line: "\<forall>r s'. detectLine s = Some (r, s') \<longrightarrow> trackPoints s' = trackPoints s"
    by (auto simp: detectLine_def Let_def split: bind_splits if_splits)
  have circle: "\<forall>r s'. detectCircle nowCircle s = Some (r, s') \<longrightarrow> trackPoints s' = trackPoints s"
    by (auto simp: detectCircle_def Let_def split: if_splits)
  have rect: "\<forall>r s'. detectRectangle nowRect1 nowRect2 s = Some (r, s') \<longrightarrow>
         trackPoints s' = trackPoints s"
    by (auto simp: detectRectangle_def Let_def split: list.splits)
  from recognizeShape_returns[of nowCircle nowRect1 nowRect2 s] obtain r where
    r: "recognizeShape nowCircle nowRect1 nowRect2 s = Some (r, s)" by blast
  then have "\<forall>r s'. recognizeShape nowCircle nowRect1 nowRect2 s = Some (r, s') \<longrightarrow>
         trackPoints s' = trackPoints s \<and> fst (getTrackPoints s') = fst (getTrackPoints s)"
    by simp
  with r line circle rect show ?thesis by blast
qed
theorem recognizeShape_preserves_buffer_witness:
  "(\<exists>r. recognizeShape 0 0 0 squareTrack = Some (r, squareTrack))
   \<and> map_option (trackPoints \<circ> snd) (recognizeShape 0 0 0 squareTrack)
       = Some (trackPoints squareTrack)
   \<and> (\<exists>r. detectLine squareTrack = Some (r, squareTrack))
   \<and> map_option (trackPoints \<circ> snd) (detectLine squareTrack)
       = Some (trackPoints squareTrack)"
proof -
  note frame = recognizeShape_preserves_buffer[of 0 0 0 squareTrack]
  note 1 = frame[THEN conjunct1]
  from 1 obtain r where r: "recognizeShape 0 0 0 squareTrack = Some (r, squareTrack)" by blast
  from frame[THEN conjunct2, THEN conjunct1, rule_format, OF r]
  have 2: "map_option (trackPoints \<circ> snd) (recognizeShape 0 0 0 squareTrack)
       = Some (trackPoints squareTrack)"
    by (simp add: r)
  from squareTrack_line obtain l where l: "detectLine squareTrack = Some (l, squareTrack)"
    by blast
  then have 3: "\<exists>r. detectLine squareTrack = Some (r, squareTrack)" by blast
  from frame[THEN conjunct2, THEN conjunct2, THEN conjunct1, rule_format, OF l]
  have 4: "map_option (trackPoints \<circ> snd) (detectLine squareTrack)
       = Some (trackPoints squareTrack)"
    by (simp add: l)
  from 1 2 3 4 show ?thesis by (intro conjI)
qed

end
